theory Spec2Isabelle
  imports Main "HOL-Library.Sublist"
begin

section \<open>The API gateway\<close>

text \<open>
  The gateway is one Express application (the second module of \<open>src/unnamed/part_000\<close>,
  lines 30 to 451): a start-up that checks the environment, a chain of middleware registered
  in a fixed order, three handlers that turn a REST call into a gRPC call, seven proxy
  middlewares, a health route and a last error handler.

  The embedding follows that text. What the module only calls is kept outside it:
  \<^item> the libraries that answer by themselves (\<open>express-rate-limit\<close>, \<open>cors\<close>), the token
    check \<open>jwt.verify\<close>, the body parser \<open>express.json\<close>, the gRPC clients and the
    upstream services are fields of a \<open>world\<close> record, so every theorem holds for all
    of them;
  \<^item> Express's router is the function \<open>dispatch\<close> over the list of registered layers:
    a layer mounted with \<open>app.use(path, fn)\<close> matches a request whose path is the mount
    path or continues it with a slash, and hands \<open>fn\<close> the URL with the mount path cut
    off; a route registered with \<open>app.get\<close>, \<open>app.post\<close> or \<open>app.patch\<close> matches its
    method and its whole path; an error passed on by a layer goes to the next
    four-argument handler. Paths are compared as they are written (Express would also
    accept another letter case).
  \<^item> the proxy middleware is the function \<open>createProxyMiddleware\<close>: it rewrites the
    mount-stripped URL with the route's \<open>pathRewrite\<close>, as the comments of
    \<open>src/src/index.js\<close> (lines 204 to 206) say it does, forwards, and calls \<open>onError\<close>
    when the upstream fails. It calls the logging callbacks where the proxy emits its
    events: \<open>onProxyReq\<close> before the request goes out, \<open>onProxyRes\<close> when the response
    of the upstream has arrived. These are event callbacks, run outside Express's call
    stack: an exception that escapes one of them is caught by nobody, and the process
    dies of it.
\<close>

subsection \<open>Requests, responses, failures\<close>

datatype http_method = GET | HEAD | POST | PUT | DELETE | PATCH | OPTIONS

datatype json =
    JNull
  | JBool bool
  | JNum int
  | JStr string
  | JArr "json list"
  | JObj "(string \<times> json) list"

datatype payload = Json json | Text string

record response =
  status :: nat
  payload :: payload

record request =
  "method" :: http_method
  originalUrl :: string
  authorization :: "string option"
  body :: "json option"
  user :: "json option"

datatype js_error = ReferenceError string | TypeError string | Thrown string

record rpc_error =
  code :: nat
  message :: string

text \<open>What leaves the gateway towards a backend while a request is handled.\<close>

datatype effect =
    RpcCall string "(string \<times> json option) list"
  | Forward "string option" string

text \<open>
  The end of a request: a response was written; or nothing (more) was written because
  the headers had already gone out when the failure came; or the process died of an
  uncaught exception before it wrote a response.
\<close>

datatype outcome = Sent response | NoReply | Crashed js_error

text \<open>
  What one handler does with a request: call \<open>next()\<close>, possibly after changing the
  request; fail (a throw or \<open>next(err)\<close>), with \<open>res.headersSent\<close> at that moment; or
  finish the request.
\<close>

datatype step =
    Next request
  | Fail js_error bool
  | Done outcome "effect list"

record world =
  env :: "string \<rightharpoonup> string"
  rate_limit :: "request \<Rightarrow> response option"
  cors_reply :: "request \<Rightarrow> response option"
  jwt_verify :: "string option \<Rightarrow> string option \<Rightarrow> json option"
  express_json :: "request \<Rightarrow> js_error + json"
  rpc :: "string \<Rightarrow> (string \<times> json option) list \<Rightarrow> rpc_error + json"
  upstream :: "string option \<Rightarrow> http_method \<Rightarrow> string \<Rightarrow> (string \<times> bool) + response"

text \<open>
  \<^item> \<open>env\<close> is \<open>process.env\<close>.
  \<^item> \<open>rate_limit\<close> and \<open>cors_reply\<close> give the response those two libraries write
    themselves (the limit was hit, a preflight was answered), or \<open>None\<close> when they call
    \<open>next()\<close>.
  \<^item> \<open>jwt_verify token secret\<close> is \<open>jwt.verify(token, secret)\<close>: the decoded claims, or
    \<open>None\<close> when it throws.
  \<^item> \<open>express_json\<close> is the parsed body or the error the parser passes on.
  \<^item> \<open>rpc name msg\<close> is what the gRPC client hands to the callback: an error or a reply.
  \<^item> \<open>upstream target method path\<close> is the upstream's response, or the message of the
    error together with \<open>res.headersSent\<close> at the time of the failure.
\<close>

subsection \<open>Start-up\<close>

text \<open>
  How the module ends its start-up: by \<open>process.exit\<close> with a status, by an exception
  that nothing catches while the module is loaded, or listening on its port.
\<close>

datatype startup = Exit nat | Uncaught js_error | Listening

definition requiredEnv :: "string list" where
  "requiredEnv =
     [''AUTH_SERVICE_URL'', ''STAKEHOLDERS_SERVICE_URL'', ''BLOG_SERVICE_URL'',
      ''TOUR_SERVICE_URL'', ''FOLLOWERS_SERVICE_URL'', ''PAYMENTS_SERVICE_URL'']"

text \<open>\<open>!process.env[key]\<close>: the variable is not set, or set to the empty string.\<close>

definition unset :: "(string \<rightharpoonup> string) \<Rightarrow> string \<Rightarrow> bool" where
  "unset e key = (case e key of None \<Rightarrow> True | Some v \<Rightarrow> v = [])"

definition missingVars :: "(string \<rightharpoonup> string) \<Rightarrow> string list" where
  "missingVars e = filter (unset e) requiredEnv"

text \<open>
  What start-up needs from the machine besides the environment: whether the loader finds
  and reads a schema file, and whether the gRPC library takes a given text as the
  address of a channel.
\<close>

record host =
  proto_file :: "string \<Rightarrow> bool"
  channel_target :: "string \<Rightarrow> bool"

text \<open>
  Building one gRPC client (lines 141 to 149 and 181 to 193): load the schema, then
  construct the client on the address read from the environment. The library refuses an
  address that is \<open>undefined\<close> with a type error. The result is the exception thrown, if
  any.
\<close>

definition loadClient ::
  "host \<Rightarrow> (string \<rightharpoonup> string) \<Rightarrow> string \<Rightarrow> string \<Rightarrow> js_error option" where
  "loadClient h e file key =
     (if proto_file h file
      then (case e key of
              None \<Rightarrow> Some (TypeError ''Channel target must be a string'')
            | Some address \<Rightarrow>
                if channel_target h address then None
                else Some (Thrown ''Could not parse target name''))
      else Some (Thrown ''ENOENT: no such file or directory''))"

text \<open>
  The module from its first statement to \<open>app.listen\<close>: the check of \<open>requiredEnv\<close>, the
  blog client, the tour client; registering the layers cannot fail.
\<close>

definition startup :: "host \<Rightarrow> (string \<rightharpoonup> string) \<Rightarrow> startup" where
  "startup h e =
     (if length (missingVars e) > 0 then Exit 1
      else (case loadClient h e ''proto/blog.proto'' ''BLOG_SERVICE_GRPC_HOST'' of
              Some err \<Rightarrow> Uncaught err
            | None \<Rightarrow>
                (case loadClient h e ''proto/tour.proto'' ''TOUR_SERVICE_GRPC_HOST'' of
                   Some err \<Rightarrow> Uncaught err
                 | None \<Rightarrow> Listening)))"

text \<open>
  Start-up of \<open>src/src/index.js\<close>, which has no gRPC client: a loop over its five
  variables that exits at the first gap.
\<close>

definition requiredEnv_index :: "string list" where
  "requiredEnv_index =
     [''AUTH_SERVICE_URL'', ''STAKEHOLDERS_SERVICE_URL'', ''BLOG_SERVICE_URL'',
      ''TOUR_SERVICE_URL'', ''FOLLOWERS_SERVICE_URL'']"

fun forEach_check :: "(string \<rightharpoonup> string) \<Rightarrow> string list \<Rightarrow> startup" where
  "forEach_check e [] = Listening"
| "forEach_check e (key # keys) = (if unset e key then Exit 1 else forEach_check e keys)"

definition startup_index :: "(string \<rightharpoonup> string) \<Rightarrow> startup" where
  "startup_index e = forEach_check e requiredEnv_index"

subsection \<open>The token gate\<close>

text \<open>\<open>s.split(sep)\<close> for a one-character separator.\<close>

fun split_on :: "char \<Rightarrow> string \<Rightarrow> string list" where
  "split_on sep [] = [[]]"
| "split_on sep (c # cs) =
     (if c = sep then [] # split_on sep cs
      else (case split_on sep cs of
              [] \<Rightarrow> [[c]]
            | w # ws \<Rightarrow> (c # w) # ws))"

text \<open>\<open>authHeader.split(" ")[1]\<close>; \<open>None\<close> is JavaScript's \<open>undefined\<close>.\<close>

definition bearer_token :: "string \<Rightarrow> string option" where
  "bearer_token authHeader =
     (case split_on (CHR '' '') authHeader of
        _ # token # _ \<Rightarrow> Some token
      | _ \<Rightarrow> None)"

definition json_message :: "string \<Rightarrow> payload" where
  "json_message m = Json (JObj [(''message'', JStr m)])"

definition verifyJWT :: "world \<Rightarrow> string \<Rightarrow> request \<Rightarrow> step" where
  "verifyJWT w u req =
     (if prefix ''/auth'' (originalUrl req) then Next req
      else (case authorization req of
              None \<Rightarrow>
                Done (Sent \<lparr>status = 401, payload = json_message ''No token provided''\<rparr>) []
            | Some authHeader \<Rightarrow>
                if authHeader = [] \<or> \<not> prefix ''Bearer '' authHeader
                then Done (Sent \<lparr>status = 401, payload = json_message ''No token provided''\<rparr>) []
                else (case jwt_verify w (bearer_token authHeader) (env w ''JWT_SECRET'') of
                        Some decoded \<Rightarrow> Next (req\<lparr>user := Some decoded\<rparr>)
                      | None \<Rightarrow>
                          Done (Sent \<lparr>status = 403,
                                      payload = json_message ''Invalid or expired token''\<rparr>) [])))"

subsection \<open>The REST to gRPC handlers\<close>

definition NOT_FOUND :: nat where
  "NOT_FOUND = 5"

text \<open>
  Reading a property while destructuring \<open>req.body\<close>: an object gives the value stored
  under the key, an array and a string know \<open>length\<close>, anything else gives \<open>undefined\<close>.
\<close>

fun property :: "json \<Rightarrow> string \<Rightarrow> json option" where
  "property (JObj kvs) k = map_of kvs k"
| "property (JArr xs) k = (if k = ''length'' then Some (JNum (int (length xs))) else None)"
| "property (JStr s) k = (if k = ''length'' then Some (JNum (int (length s))) else None)"
| "property _ k = None"

text \<open>\<open>const { a, b } = req.body\<close> throws when the body is \<open>undefined\<close> or \<open>null\<close>.\<close>

definition destructure ::
  "string list \<Rightarrow> json option \<Rightarrow> js_error + (string \<times> json option) list" where
  "destructure keys b =
     (case b of
        None \<Rightarrow> Inl (TypeError ''Cannot destructure undefined'')
      | Some JNull \<Rightarrow> Inl (TypeError ''Cannot destructure null'')
      | Some j \<Rightarrow> Inr (map (\<lambda>k. (k, property j k)) keys))"

text \<open>
  The callback \<open>(err, response) => ...\<close>, which the three handlers spell out in the same
  words.
\<close>

definition grpc_callback :: "rpc_error + json \<Rightarrow> response" where
  "grpc_callback r =
     (case r of
        Inl err \<Rightarrow>
          \<lparr>status = (if code err = NOT_FOUND then 404 else 500),
           payload = json_message (message err)\<rparr>
      | Inr reply \<Rightarrow> \<lparr>status = 201, payload = Json reply\<rparr>)"

definition bridge :: "world \<Rightarrow> string \<Rightarrow> string list \<Rightarrow> string \<Rightarrow> request \<Rightarrow> step" where
  "bridge w name keys u req =
     (case destructure keys (body req) of
        Inl e \<Rightarrow> Fail e False
      | Inr msg \<Rightarrow> Done (Sent (grpc_callback (rpc w name msg))) [RpcCall name msg])"

definition blog_create :: "world \<Rightarrow> string \<Rightarrow> request \<Rightarrow> step" where
  "blog_create w =
     bridge w ''blogClient.Create'' [''author'', ''title'', ''description'', ''images'']"

definition blog_comment :: "world \<Rightarrow> string \<Rightarrow> request \<Rightarrow> step" where
  "blog_comment w = bridge w ''blogClient.PostComment'' [''blogId'', ''author'', ''text'']"

definition tour_create :: "world \<Rightarrow> string \<Rightarrow> request \<Rightarrow> step" where
  "tour_create w =
     bridge w ''tourClient.CreateTour''
       [''author'', ''title'', ''description'', ''difficulty'', ''price'', ''tags'',
        ''keyPoints'', ''durations'', ''length'']"

definition json_parser :: "world \<Rightarrow> string \<Rightarrow> request \<Rightarrow> step" where
  "json_parser w u req =
     (case express_json w req of
        Inl e \<Rightarrow> Fail e False
      | Inr j \<Rightarrow> Next (req\<lparr>body := Some j\<rparr>))"

subsection \<open>Logging callbacks and the names they can see\<close>

text \<open>
  The log lines are template literals. A part of a template is a literal piece of text,
  the value of a member expression on a parameter or on \<open>process.env\<close> (it always has a
  value, maybe the text \<open>undefined\<close>), or a bare identifier, which has to be resolved
  in the scopes around the callback: the constants the callback declares itself, its
  parameters, the bindings of the module, the globals of the runtime.
\<close>

datatype part = Lit string | Val string | Ident string

definition module_bindings :: "string list" where
  "module_bindings =
     [''express'', ''logger'', ''morganMiddleware'', ''rateLimit'', ''createProxyMiddleware'',
      ''cors'', ''dotenv'', ''path'', ''jwt'', ''grpc'', ''protoLoader'',
      ''app'', ''PORT'', ''requiredEnv'', ''missingVars'', ''verifyJWT'',
      ''PROTO_PATH'', ''packageDef'', ''grpcObj'', ''blogPackage'', ''blogClient'',
      ''TOUR_PROTO_PATH'', ''tourPackageDef'', ''tourGrpcObj'', ''tourPackage'', ''tourClient'']"

definition node_globals :: "string list" where
  "node_globals = [''process'', ''console'']"

definition resolve ::
  "(string \<times> string) list \<Rightarrow> string list \<Rightarrow> string \<Rightarrow> js_error + string" where
  "resolve locals params x =
     (case map_of locals x of
        Some v \<Rightarrow> Inr v
      | None \<Rightarrow>
          if x \<in> set (params @ module_bindings @ node_globals) then Inr ''[object Object]''
          else Inl (ReferenceError x))"

fun template ::
  "(string \<times> string) list \<Rightarrow> string list \<Rightarrow> part list \<Rightarrow> js_error + string" where
  "template locals params [] = Inr []"
| "template locals params (Lit s # ps) =
     (case template locals params ps of Inl e \<Rightarrow> Inl e | Inr r \<Rightarrow> Inr (s @ r))"
| "template locals params (Val s # ps) =
     (case template locals params ps of Inl e \<Rightarrow> Inl e | Inr r \<Rightarrow> Inr (s @ r))"
| "template locals params (Ident x # ps) =
     (case resolve locals params x of
        Inl e \<Rightarrow> Inl e
      | Inr v \<Rightarrow> (case template locals params ps of Inl e \<Rightarrow> Inl e | Inr r \<Rightarrow> Inr (v @ r)))"

text \<open>\<open>logger.info(line)\<close>: the line is logged, or the error of its evaluation escapes.\<close>

definition logger_info :: "js_error + string \<Rightarrow> js_error + string list" where
  "logger_info line = (case line of Inl e \<Rightarrow> Inl e | Inr s \<Rightarrow> Inr [s])"

text \<open>\<open>try { ... } catch (_) { }\<close>\<close>

definition try_catch :: "js_error + string list \<Rightarrow> js_error + string list" where
  "try_catch r = (case r of Inl e \<Rightarrow> Inr [] | Inr ls \<Rightarrow> Inr ls)"

fun show_method :: "http_method \<Rightarrow> string" where
  "show_method GET = ''GET''"
| "show_method HEAD = ''HEAD''"
| "show_method POST = ''POST''"
| "show_method PUT = ''PUT''"
| "show_method DELETE = ''DELETE''"
| "show_method PATCH = ''PATCH''"
| "show_method OPTIONS = ''OPTIONS''"

definition show_env :: "string option \<Rightarrow> string" where
  "show_env v = (case v of None \<Rightarrow> ''undefined'' | Some s \<Rightarrow> s)"

fun show_nat :: "nat \<Rightarrow> string" where
  "show_nat n =
     (if n < 10 then [char_of (48 + n)]
      else show_nat (n div 10) @ [char_of (48 + n mod 10)])"

declare show_nat.simps [simp del]

text \<open>
  The two callbacks as six of the seven routes write them: \<open>onProxyReq\<close> inside
  \<open>try\<close>/\<open>catch\<close> and reading \<open>process.env\<close>; \<open>onProxyRes\<close> with a constant \<open>target\<close> of
  its own.
\<close>

definition onProxyReq_guarded ::
  "string option \<Rightarrow> request \<Rightarrow> string \<Rightarrow> js_error + string list" where
  "onProxyReq_guarded url req proxyReqPath =
     try_catch (logger_info (template [] [''proxyReq'', ''req'', ''res'']
       [Lit ''[Gateway] forwarding '', Val (show_method (method req)), Lit '' '',
        Val (originalUrl req), Lit '' -> '', Val (show_env url), Val proxyReqPath]))"

definition onProxyRes_local ::
  "string option \<Rightarrow> request \<Rightarrow> nat \<Rightarrow> js_error + string list" where
  "onProxyRes_local url req statusCode =
     logger_info (template [(''target'', show_env url)] [''proxyRes'', ''req'', ''res'']
       [Lit ''[Gateway] '', Val (show_method (method req)), Lit '' '',
        Val (originalUrl req), Lit '' -> '', Ident ''target'', Lit '' (status: '',
        Val (show_nat statusCode), Lit '')''])"

text \<open>The two callbacks of the \<open>/api/tour-execution\<close> route (lines 345 to 350).\<close>

definition onProxyReq_tour_execution :: "request \<Rightarrow> string \<Rightarrow> js_error + string list" where
  "onProxyReq_tour_execution req proxyReqPath =
     logger_info (template [] [''proxyReq'', ''req'', ''res'']
       [Lit ''[Gateway] forwarding '', Val (show_method (method req)), Lit '' '',
        Val (originalUrl req), Lit '' -> '', Ident ''target'', Val proxyReqPath])"

definition onProxyRes_tour_execution :: "request \<Rightarrow> nat \<Rightarrow> js_error + string list" where
  "onProxyRes_tour_execution req statusCode =
     logger_info (template [] [''proxyRes'', ''req'', ''res'']
       [Lit ''[Gateway] '', Val (show_method (method req)), Lit '' '',
        Val (originalUrl req), Lit '' -> '', Ident ''target'', Lit '' (status: '',
        Val (show_nat statusCode), Lit '')''])"

subsection \<open>The proxy middleware and its seven configurations\<close>

record proxy_options =
  target :: "string option"
  timeout :: nat
  proxyTimeout :: nat
  pathRewrite :: "(string \<Rightarrow> string) option"
  onProxyReq :: "request \<Rightarrow> string \<Rightarrow> js_error + string list"
  onProxyRes :: "request \<Rightarrow> nat \<Rightarrow> js_error + string list"
  onError :: "string \<Rightarrow> request \<Rightarrow> bool \<Rightarrow> response option"

text \<open>
  \<open>onError\<close> as every route writes it, up to the text of the message: a 502 unless the
  headers have gone out. Its first argument is the message text of the route, the second
  is \<open>err.message\<close>.
\<close>

definition bad_gateway :: "string \<Rightarrow> string \<Rightarrow> request \<Rightarrow> bool \<Rightarrow> response option" where
  "bad_gateway msg errMessage req headersSent =
     (if \<not> headersSent
      then Some \<lparr>status = 502,
                 payload = Json (JObj [(''message'', JStr msg), (''error'', JStr errMessage)])\<rparr>
      else None)"

text \<open>A rewrite table with one entry \<open>{ "^pattern": replacement }\<close>.\<close>

definition rewrite_rule :: "string \<Rightarrow> string \<Rightarrow> string \<Rightarrow> string" where
  "rewrite_rule pat repl path =
     (if prefix pat path then repl @ drop (length pat) path else path)"

definition auth_options :: "world \<Rightarrow> proxy_options" where
  "auth_options w =
     \<lparr>target = env w ''AUTH_SERVICE_URL'', timeout = 30000, proxyTimeout = 30000,
      pathRewrite = Some (\<lambda>path. ''/auth'' @ path),
      onProxyReq = onProxyReq_guarded (env w ''AUTH_SERVICE_URL''),
      onProxyRes = onProxyRes_local (env w ''AUTH_SERVICE_URL''),
      onError = bad_gateway ''Gateway failed to reach auth service''\<rparr>"

definition stakeholders_options :: "world \<Rightarrow> proxy_options" where
  "stakeholders_options w =
     \<lparr>target = env w ''STAKEHOLDERS_SERVICE_URL'', timeout = 30000, proxyTimeout = 30000,
      pathRewrite = None,
      onProxyReq = onProxyReq_guarded (env w ''STAKEHOLDERS_SERVICE_URL''),
      onProxyRes = onProxyRes_local (env w ''STAKEHOLDERS_SERVICE_URL''),
      onError = bad_gateway ''Gateway failed to reach stakeholders service''\<rparr>"

definition blog_options :: "world \<Rightarrow> proxy_options" where
  "blog_options w =
     \<lparr>target = env w ''BLOG_SERVICE_URL'', timeout = 30000, proxyTimeout = 30000,
      pathRewrite = Some (\<lambda>path. ''/api/blog'' @ path),
      onProxyReq = onProxyReq_guarded (env w ''BLOG_SERVICE_URL''),
      onProxyRes = onProxyRes_local (env w ''BLOG_SERVICE_URL''),
      onError = bad_gateway ''Gateway failed to reach blog service''\<rparr>"

definition tour_options :: "world \<Rightarrow> proxy_options" where
  "tour_options w =
     \<lparr>target = env w ''TOUR_SERVICE_URL'', timeout = 10000, proxyTimeout = 10000,
      pathRewrite = Some (\<lambda>path. ''/api/tour'' @ path),
      onProxyReq = onProxyReq_guarded (env w ''TOUR_SERVICE_URL''),
      onProxyRes = onProxyRes_local (env w ''TOUR_SERVICE_URL''),
      onError = bad_gateway ''Gateway failed to reach tour service''\<rparr>"

definition tour_execution_options :: "world \<Rightarrow> proxy_options" where
  "tour_execution_options w =
     \<lparr>target = env w ''TOUR_SERVICE_URL'', timeout = 10000, proxyTimeout = 10000,
      pathRewrite = Some (\<lambda>path. ''/api/tour-execution'' @ path),
      onProxyReq = onProxyReq_tour_execution,
      onProxyRes = onProxyRes_tour_execution,
      onError = bad_gateway ''Gateway failed to reach tour service''\<rparr>"

definition followers_options :: "world \<Rightarrow> proxy_options" where
  "followers_options w =
     \<lparr>target = env w ''FOLLOWERS_SERVICE_URL'', timeout = 10000, proxyTimeout = 10000,
      pathRewrite = Some (rewrite_rule ''/api/followers'' []),
      onProxyReq = onProxyReq_guarded (env w ''FOLLOWERS_SERVICE_URL''),
      onProxyRes = onProxyRes_local (env w ''FOLLOWERS_SERVICE_URL''),
      onError = bad_gateway ''Gateway failed to reach followers service''\<rparr>"

definition carts_options :: "world \<Rightarrow> proxy_options" where
  "carts_options w =
     \<lparr>target = env w ''PAYMENTS_SERVICE_URL'', timeout = 10000, proxyTimeout = 10000,
      pathRewrite = Some (\<lambda>path. ''/api/carts'' @ path),
      onProxyReq = onProxyReq_guarded (env w ''PAYMENTS_SERVICE_URL''),
      onProxyRes = onProxyRes_local (env w ''PAYMENTS_SERVICE_URL''),
      onError = bad_gateway ''Gateway failed to reach followers service''\<rparr>"

text \<open>
  The middleware: rewrite the URL it was handed; call \<open>onProxyReq\<close> on the outgoing
  request, which is not sent when the callback raises; forward; on a response of the
  upstream call \<open>onProxyRes\<close> and pass the response on; on a failure of the upstream
  leave the answer to \<open>onError\<close>.
\<close>

definition createProxyMiddleware :: "world \<Rightarrow> proxy_options \<Rightarrow> string \<Rightarrow> request \<Rightarrow> step" where
  "createProxyMiddleware w opts u req =
     (let p = (case pathRewrite opts of None \<Rightarrow> u | Some f \<Rightarrow> f u) in
      case onProxyReq opts req p of
        Inl e \<Rightarrow> Done (Crashed e) []
      | Inr logged \<Rightarrow>
          (case upstream w (target opts) (method req) p of
             Inr r \<Rightarrow>
               (case onProxyRes opts req (status r) of
                  Inl e \<Rightarrow> Done (Crashed e) [Forward (target opts) p]
                | Inr logged' \<Rightarrow> Done (Sent r) [Forward (target opts) p])
           | Inl (errMessage, headersSent) \<Rightarrow>
               (case onError opts errMessage req headersSent of
                  Some r \<Rightarrow> Done (Sent r) [Forward (target opts) p]
                | None \<Rightarrow> Done NoReply [Forward (target opts) p])))"

subsection \<open>Express: layers and their dispatch\<close>

definition pathname :: "string \<Rightarrow> string" where
  "pathname u = takeWhile (\<lambda>c. c \<noteq> CHR ''?'') u"

definition mounted :: "string \<Rightarrow> string \<Rightarrow> bool" where
  "mounted m p = (m = [] \<or> p = m \<or> prefix (m @ ''/'') p)"

definition strip_mount :: "string \<Rightarrow> string \<Rightarrow> string" where
  "strip_mount m u =
     (if m = [] then u
      else (case drop (length m) u of
              [] \<Rightarrow> ''/''
            | c # cs \<Rightarrow> if c = CHR ''/'' then c # cs else CHR ''/'' # c # cs))"

definition route_path :: "string \<Rightarrow> string \<Rightarrow> bool" where
  "route_path r p = (p = r \<or> p = r @ ''/'')"

definition method_matches :: "http_method \<Rightarrow> http_method \<Rightarrow> bool" where
  "method_matches registered m = (m = registered \<or> (registered = GET \<and> m = HEAD))"

datatype layer =
    Use string "string \<Rightarrow> request \<Rightarrow> step"
  | Route http_method string "(string \<Rightarrow> request \<Rightarrow> step) list"
  | ErrorHandler "js_error \<Rightarrow> request \<Rightarrow> bool \<Rightarrow> response option"

fun run_handlers :: "(string \<Rightarrow> request \<Rightarrow> step) list \<Rightarrow> string \<Rightarrow> request \<Rightarrow> step" where
  "run_handlers [] u req = Next req"
| "run_handlers (h # hs) u req =
     (case h u req of
        Next req' \<Rightarrow> run_handlers hs u req'
      | Fail e sent \<Rightarrow> Fail e sent
      | Done out fx \<Rightarrow> Done out fx)"

text \<open>
  An error skips every layer that is not an error handler. With none left, Express's own
  last resort answers 500, unless the headers have gone out.
\<close>

fun handle_error :: "layer list \<Rightarrow> js_error \<Rightarrow> request \<Rightarrow> bool \<Rightarrow> outcome \<times> effect list" where
  "handle_error [] e req sent =
     ((if sent then NoReply else Sent \<lparr>status = 500, payload = Text ''Internal Server Error''\<rparr>), [])"
| "handle_error (ErrorHandler h # ls) e req sent =
     (case h e req sent of Some r \<Rightarrow> (Sent r, []) | None \<Rightarrow> (NoReply, []))"
| "handle_error (Use m h # ls) e req sent = handle_error ls e req sent"
| "handle_error (Route mt r hs # ls) e req sent = handle_error ls e req sent"

text \<open>A request no layer finishes gets Express's 404.\<close>

fun dispatch :: "layer list \<Rightarrow> request \<Rightarrow> outcome \<times> effect list" where
  "dispatch [] req =
     (Sent \<lparr>status = 404,
            payload = Text (''Cannot '' @ show_method (method req) @ '' '' @
                            pathname (originalUrl req))\<rparr>, [])"
| "dispatch (Use m h # ls) req =
     (if mounted m (pathname (originalUrl req))
      then (case h (strip_mount m (originalUrl req)) req of
              Next req' \<Rightarrow> dispatch ls req'
            | Fail e sent \<Rightarrow> handle_error ls e req sent
            | Done out fx \<Rightarrow> (out, fx))
      else dispatch ls req)"
| "dispatch (Route mt r hs # ls) req =
     (if method_matches mt (method req) \<and> route_path r (pathname (originalUrl req))
      then (case run_handlers hs (originalUrl req) req of
              Next req' \<Rightarrow> dispatch ls req'
            | Fail e sent \<Rightarrow> handle_error ls e req sent
            | Done out fx \<Rightarrow> (out, fx))
      else dispatch ls req)"
| "dispatch (ErrorHandler h # ls) req = dispatch ls req"

subsection \<open>The application\<close>

definition morganMiddleware :: "string \<Rightarrow> request \<Rightarrow> step" where
  "morganMiddleware u req = Next req"

definition rateLimit :: "world \<Rightarrow> string \<Rightarrow> request \<Rightarrow> step" where
  "rateLimit w u req = (case rate_limit w req of None \<Rightarrow> Next req | Some r \<Rightarrow> Done (Sent r) [])"

definition cors :: "world \<Rightarrow> string \<Rightarrow> request \<Rightarrow> step" where
  "cors w u req = (case cors_reply w req of None \<Rightarrow> Next req | Some r \<Rightarrow> Done (Sent r) [])"

text \<open>The text of the health route, with the bytes that follow it in the source line.\<close>

definition health_text :: string where
  "health_text =
     ''API Gateway is running '' @
     [CHR 0xC3, CHR 0xB0, CHR 0xC5, CHR 0xB8, CHR 0xC5, CHR 0xA1, CHR 0xE2, CHR 0x82, CHR 0xAC]"

definition health :: "string \<Rightarrow> request \<Rightarrow> step" where
  "health u req = Done (Sent \<lparr>status = 200, payload = Text health_text\<rparr>) []"

definition global_error_handler :: "js_error \<Rightarrow> request \<Rightarrow> bool \<Rightarrow> response option" where
  "global_error_handler err req headersSent =
     (if \<not> headersSent
      then Some \<lparr>status = 500, payload = json_message ''Gateway internal error''\<rparr>
      else None)"

text \<open>The layers in the order of their registration: first the four that see every request.\<close>

definition gate :: "world \<Rightarrow> layer list" where
  "gate w =
     [Use [] morganMiddleware,
      Use [] (rateLimit w),
      Use [] (cors w),
      Use [] (verifyJWT w)]"

definition routes :: "world \<Rightarrow> layer list" where
  "routes w =
     [Use ''/auth'' (createProxyMiddleware w (auth_options w)),
      Route POST ''/api/blog'' [json_parser w, blog_create w],
      Route PATCH ''/api/blog/comment'' [json_parser w, blog_comment w],
      Route POST ''/api/tour'' [json_parser w, tour_create w],
      Use ''/stakeholders'' (createProxyMiddleware w (stakeholders_options w)),
      Use ''/api/blog'' (createProxyMiddleware w (blog_options w)),
      Use ''/api/tour'' (createProxyMiddleware w (tour_options w)),
      Use ''/api/tour-execution'' (createProxyMiddleware w (tour_execution_options w)),
      Use ''/api/followers'' (createProxyMiddleware w (followers_options w)),
      Use ''/api/carts'' (createProxyMiddleware w (carts_options w)),
      Route GET ''/health'' [health],
      ErrorHandler global_error_handler]"

definition app :: "world \<Rightarrow> layer list" where
  "app w = gate w @ routes w"

definition gateway :: "world \<Rightarrow> request \<Rightarrow> outcome \<times> effect list" where
  "gateway w req = dispatch (app w) req"


subsection \<open>Notions of the specification, and sample inputs\<close>

text \<open>
  A request is admitted when neither the rate limiter nor the CORS middleware answers it
  itself: the specification treats both as an admission filter in front of the gateway.
\<close>

definition admitted :: "world \<Rightarrow> request \<Rightarrow> bool" where
  "admitted w req = (rate_limit w req = None \<and> cors_reply w req = None)"

text \<open>
  The claims of a valid bearer credential: the header is there, starts with
  \<open>Bearer\<close> and a blank, and the token verifies against the configured secret.
\<close>

definition credential :: "world \<Rightarrow> request \<Rightarrow> json option" where
  "credential w req =
     (case authorization req of
        None \<Rightarrow> None
      | Some h \<Rightarrow>
          if prefix ''Bearer '' h then jwt_verify w (bearer_token h) (env w ''JWT_SECRET'')
          else None)"

text \<open>The endpoints answered by a gRPC call instead of a proxy.\<close>

definition bridged_endpoints :: "(http_method \<times> string) set" where
  "bridged_endpoints =
     {(POST, ''/api/blog''), (PATCH, ''/api/blog/comment''), (POST, ''/api/tour'')}"

definition sample_env :: "string \<rightharpoonup> string" where
  "sample_env = map_of
     [(''AUTH_SERVICE_URL'', ''http://auth:3001''),
      (''STAKEHOLDERS_SERVICE_URL'', ''http://stakeholders:3002''),
      (''BLOG_SERVICE_URL'', ''http://blog:3003''),
      (''TOUR_SERVICE_URL'', ''http://tour:3004''),
      (''FOLLOWERS_SERVICE_URL'', ''http://followers:3005''),
      (''PAYMENTS_SERVICE_URL'', ''http://payments:3006'')]"

text \<open>
  A world in which everything works: the token \<open>good\<close> verifies against the secret,
  every body parses, every gRPC call and every upstream answers (the upstream echoes the
  path it was sent).
\<close>

definition sample_world :: world where
  "sample_world =
     \<lparr>env = sample_env(''JWT_SECRET'' \<mapsto> ''s3cret''),
      rate_limit = (\<lambda>req. None),
      cors_reply = (\<lambda>req. None),
      jwt_verify = (\<lambda>token secret.
         if token = Some ''good'' \<and> secret = Some ''s3cret''
         then Some (JObj [(''sub'', JStr ''u1'')]) else None),
      express_json = (\<lambda>req. Inr (JObj [(''author'', JStr ''ann''), (''title'', JStr ''Alps'')])),
      rpc = (\<lambda>name msg. Inr (JObj [(''id'', JNum 1)])),
      upstream = (\<lambda>t m p. Inr \<lparr>status = 200, payload = Text p\<rparr>)\<rparr>"

text \<open>The same world with every backend down.\<close>

definition failing_world :: world where
  "failing_world =
     sample_world
       \<lparr>rpc := (\<lambda>name msg. Inl \<lparr>code = 14, message = ''unavailable''\<rparr>),
        upstream := (\<lambda>t m p. Inl (''connect ECONNREFUSED'', False))\<rparr>"

definition sample_request :: "http_method \<Rightarrow> string \<Rightarrow> string option \<Rightarrow> request" where
  "sample_request m u a =
     \<lparr>method = m, originalUrl = u, authorization = a, body = None, user = None\<rparr>"

text \<open>
  An environment with the six base URLs and the two gRPC addresses, and no signing
  secret; a machine on which both schema files load and every address is taken; the
  sample world in that environment, whose token check, like the library, accepts no
  token when there is no secret.
\<close>

definition full_env :: "string \<rightharpoonup> string" where
  "full_env =
     sample_env(''BLOG_SERVICE_GRPC_HOST'' \<mapsto> ''blog:50051'',
                ''TOUR_SERVICE_GRPC_HOST'' \<mapsto> ''tour:50052'')"

definition sample_host :: host where
  "sample_host = \<lparr>proto_file = (\<lambda>file. True), channel_target = (\<lambda>address. True)\<rparr>"

definition secretless_world :: world where
  "secretless_world = sample_world\<lparr>env := full_env\<rparr>"

text \<open>The client method behind each bridged endpoint.\<close>

definition rpc_name :: "http_method \<times> string \<Rightarrow> string" where
  "rpc_name ep =
     (if ep = (POST, ''/api/blog'') then ''blogClient.Create''
      else if ep = (PATCH, ''/api/blog/comment'') then ''blogClient.PostComment''
      else ''tourClient.CreateTour'')"

text \<open>
  Express's chain up to the layer that ends it: how the layers, taken in order, leave the
  request when no error handler is consulted. \<open>Next\<close> means that every layer passed the
  request on.
\<close>

fun run :: "layer list \<Rightarrow> request \<Rightarrow> step" where
  "run [] req = Next req"
| "run (Use m h # ls) req =
     (if mounted m (pathname (originalUrl req))
      then (case h (strip_mount m (originalUrl req)) req of
              Next req' \<Rightarrow> run ls req'
            | Fail e sent \<Rightarrow> Fail e sent
            | Done out fx \<Rightarrow> Done out fx)
      else run ls req)"
| "run (Route mt r hs # ls) req =
     (if method_matches mt (method req) \<and> route_path r (pathname (originalUrl req))
      then (case run_handlers hs (originalUrl req) req of
              Next req' \<Rightarrow> run ls req'
            | Fail e sent \<Rightarrow> Fail e sent
            | Done out fx \<Rightarrow> Done out fx)
      else run ls req)"
| "run (ErrorHandler h # ls) req = run ls req"

text \<open>
  The ways a request for \<open>url\<close> can end in this gateway: with a response; with nothing
  more written, after an upstream failed when the headers had gone out; or with the
  process dead of the reference error, on a path under \<open>/api/tour-execution\<close>.
\<close>

definition settled :: "world \<Rightarrow> string \<Rightarrow> outcome \<Rightarrow> bool" where
  "settled w url out =
     ((\<exists>r. out = Sent r) \<or>
      (out = NoReply \<and> (\<exists>t m p msg. upstream w t m p = Inl (msg, True))) \<or>
      (out = Crashed (ReferenceError ''target'') \<and>
       mounted ''/api/tour-execution'' (pathname url)))"

text \<open>The layers registered before the last one.\<close>

definition before_handler :: "world \<Rightarrow> layer list" where
  "before_handler w = gate w @ butlast (routes w)"

text \<open>
  A proxy route whose callbacks do not raise: the callbacks of every route but the one
  mounted at \<open>/api/tour-execution\<close>.
\<close>

definition quiet :: "proxy_options \<Rightarrow> bool" where
  "quiet opts =
     ((\<forall>req p. \<exists>l. onProxyReq opts req p = Inr l) \<and>
      (\<forall>req st. \<exists>l. onProxyRes opts req st = Inr l))"

lemmas sample_simps =
  admitted_def credential_def sample_world_def failing_world_def secretless_world_def
  full_env_def sample_request_def sample_env_def pathname_def bearer_token_def bridged_endpoints_def

lemmas option_defs =
  auth_options_def stakeholders_options_def blog_options_def tour_options_def
  tour_execution_options_def followers_options_def carts_options_def

lemmas route_simps =
  routes_def mounted_def route_path_def method_matches_def strip_mount_def

lemmas callback_simps =
  onProxyReq_guarded_def onProxyRes_local_def logger_info_def try_catch_def resolve_def

section \<open>Properties\<close>

subsection \<open>Paths and the gate\<close>

lemma pathname_prefix: "prefix (pathname u) u"
  unfolding pathname_def by (metis prefixI takeWhile_dropWhile_id)

lemma prefix_pathname:
  "CHR ''?'' \<notin> set p \<Longrightarrow> prefix p (pathname u) = prefix p u"
  unfolding pathname_def
proof (induction p arbitrary: u)
  case Nil
  then show ?case by simp
next
  case (Cons c p)
  then show ?case by (cases u) auto
qed

lemma not_auth_path:
  "\<not> prefix ''/auth'' (pathname (originalUrl req)) \<Longrightarrow> \<not> prefix ''/auth'' (originalUrl req)"
  using prefix_pathname [of "''/auth''" "originalUrl req"] by simp

lemma bearer_nonempty: "prefix ''Bearer '' h \<Longrightarrow> h \<noteq> []"
  by auto

text \<open>An admitted request reaches \<open>verifyJWT\<close>, and the routes only through it.\<close>

lemma gateway_gate:
  "admitted w req \<Longrightarrow>
   gateway w req =
     (case verifyJWT w (originalUrl req) req of
        Next req' \<Rightarrow> dispatch (routes w) req'
      | Fail e sent \<Rightarrow> handle_error (routes w) e req sent
      | Done out fx \<Rightarrow> (out, fx))"
  by (simp add: gateway_def app_def gate_def admitted_def mounted_def strip_mount_def
      morganMiddleware_def rateLimit_def cors_def)

text \<open>No route consults the token check.\<close>

lemma routes_jwt_verify: "routes (w\<lparr>jwt_verify := v\<rparr>) = routes w"
  by (simp add: routes_def fun_eq_iff createProxyMiddleware_def auth_options_def
      stakeholders_options_def blog_options_def tour_options_def tour_execution_options_def
      followers_options_def carts_options_def json_parser_def blog_create_def blog_comment_def
      tour_create_def bridge_def cong: sum.case_cong)

lemma gate_pass:
  assumes "admitted w req" "\<not> prefix ''/auth'' (pathname (originalUrl req))"
    "credential w req = Some claims"
  shows "gateway w req = dispatch (routes w) (req\<lparr>user := Some claims\<rparr>)"
  using assms(3) not_auth_path [OF assms(2)]
  unfolding gateway_gate [OF assms(1)]
  by (auto simp: verifyJWT_def credential_def split: option.splits if_splits)

lemma gate_block:
  assumes "admitted w req" "\<not> prefix ''/auth'' (pathname (originalUrl req))"
    "credential w req = None"
  shows "\<exists>r. gateway w req = (Sent r, []) \<and> (status r = 401 \<or> status r = 403)"
  using assms(3) not_auth_path [OF assms(2)]
  unfolding gateway_gate [OF assms(1)]
  by (auto simp: verifyJWT_def credential_def split: option.splits if_splits)

text \<open>
  Claim C2. For an admitted request whose path does not start with \<open>/auth\<close>: without an
  Authorization header, or with one that does not start with \<open>Bearer\<close> and a blank, the
  response is 401 with a JSON message and nothing else happens; with a token that fails
  verification the response is 403; with a token that verifies, the decoded claims are
  stored in \<open>req.user\<close> and the routes are dispatched on that request. For a request whose
  path starts with \<open>/auth\<close> the routes are dispatched on the request as it came,
  whatever its header, and the outcome does not depend on the token check at all.
\<close>

theorem verifyJWT_gate:
  assumes "admitted w req"
  shows
    "(\<not> prefix ''/auth'' (pathname (originalUrl req)) \<and>
      (authorization req = None \<or>
       (\<exists>h. authorization req = Some h \<and> \<not> prefix ''Bearer '' h)) \<longrightarrow>
        gateway w req =
          (Sent \<lparr>status = 401,
                 payload = Json (JObj [(''message'', JStr ''No token provided'')])\<rparr>, []))
     \<and>
     (\<forall>h. \<not> prefix ''/auth'' (pathname (originalUrl req)) \<and>
          authorization req = Some h \<and> prefix ''Bearer '' h \<and>
          jwt_verify w (bearer_token h) (env w ''JWT_SECRET'') = None \<longrightarrow>
        gateway w req =
          (Sent \<lparr>status = 403,
                 payload = Json (JObj [(''message'', JStr ''Invalid or expired token'')])\<rparr>, []))
     \<and>
     (\<forall>h claims. \<not> prefix ''/auth'' (pathname (originalUrl req)) \<and>
          authorization req = Some h \<and> prefix ''Bearer '' h \<and>
          jwt_verify w (bearer_token h) (env w ''JWT_SECRET'') = Some claims \<longrightarrow>
        gateway w req = dispatch (routes w) (req\<lparr>user := Some claims\<rparr>))
     \<and>
     (prefix ''/auth'' (pathname (originalUrl req)) \<longrightarrow>
        gateway w req = dispatch (routes w) req \<and>
        (\<forall>v. gateway (w\<lparr>jwt_verify := v\<rparr>) req = gateway w req))"
proof -
  have p: "prefix ''/auth'' (pathname (originalUrl req)) = prefix ''/auth'' (originalUrl req)"
    by (rule prefix_pathname) simp
  have a: "\<And>v. admitted (w\<lparr>jwt_verify := v\<rparr>) req"
    using assms by (simp add: admitted_def)
  show ?thesis
    unfolding p gateway_gate [OF assms] gateway_gate [OF a] routes_jwt_verify
    by (auto simp: verifyJWT_def json_message_def dest: bearer_nonempty)
qed

theorem verifyJWT_gate_witness:
  "admitted sample_world (sample_request POST ''/api/blog'' None) \<and>
   gateway sample_world (sample_request POST ''/api/blog'' None) =
     (Sent \<lparr>status = 401, payload = Json (JObj [(''message'', JStr ''No token provided'')])\<rparr>, [])
   \<and>
   jwt_verify sample_world (bearer_token ''Bearer bad'') (env sample_world ''JWT_SECRET'') = None \<and>
   gateway sample_world (sample_request GET ''/stakeholders/me'' (Some ''Bearer bad'')) =
     (Sent \<lparr>status = 403,
            payload = Json (JObj [(''message'', JStr ''Invalid or expired token'')])\<rparr>, [])
   \<and>
   jwt_verify sample_world (bearer_token ''Bearer good'') (env sample_world ''JWT_SECRET'') =
     Some (JObj [(''sub'', JStr ''u1'')]) \<and>
   gateway sample_world (sample_request GET ''/stakeholders/me'' (Some ''Bearer good'')) =
     dispatch (routes sample_world)
       ((sample_request GET ''/stakeholders/me'' (Some ''Bearer good''))
          \<lparr>user := Some (JObj [(''sub'', JStr ''u1'')])\<rparr>)
   \<and>
   prefix ''/auth'' (pathname (originalUrl (sample_request POST ''/auth/login'' None))) \<and>
   gateway sample_world (sample_request POST ''/auth/login'' None) =
     dispatch (routes sample_world) (sample_request POST ''/auth/login'' None)"
  using verifyJWT_gate [of sample_world "sample_request POST ''/api/blog'' None"]
    verifyJWT_gate [of sample_world "sample_request GET ''/stakeholders/me'' (Some ''Bearer bad'')"]
    verifyJWT_gate [of sample_world "sample_request GET ''/stakeholders/me'' (Some ''Bearer good'')"]
    verifyJWT_gate [of sample_world "sample_request POST ''/auth/login'' None"]
  by (simp add: sample_simps)

text \<open>
  Claim C3, as the code has it. The health route is registered behind the gate, and
  \<open>/health\<close> is not under \<open>/auth\<close>: an admitted GET request to \<open>/health\<close> is answered 200
  when it carries a valid bearer credential, whatever the backends do, and 401 or 403
  when it does not.
\<close>

theorem health_behind_gate:
  assumes "admitted w req" "method req = GET" "pathname (originalUrl req) = ''/health''"
  shows
    "(\<forall>claims. credential w req = Some claims \<longrightarrow>
        gateway w req = (Sent \<lparr>status = 200, payload = Text health_text\<rparr>, []))
     \<and>
     (credential w req = None \<longrightarrow>
        (\<exists>r. gateway w req = (Sent r, []) \<and> (status r = 401 \<or> status r = 403)))"
proof -
  have n: "\<not> prefix ''/auth'' (pathname (originalUrl req))"
    using assms(3) by simp
  have "dispatch (routes w) (req\<lparr>user := Some claims\<rparr>) =
          (Sent \<lparr>status = 200, payload = Text health_text\<rparr>, [])" for claims
    using assms(2,3)
    by (simp add: routes_def mounted_def route_path_def method_matches_def health_def)
  then show ?thesis
    using gate_pass [OF assms(1) n] gate_block [OF assms(1) n] by auto
qed

theorem health_behind_gate_witness:
  "admitted sample_world (sample_request GET ''/health'' (Some ''Bearer good'')) \<and>
   credential sample_world (sample_request GET ''/health'' (Some ''Bearer good'')) =
     Some (JObj [(''sub'', JStr ''u1'')]) \<and>
   gateway sample_world (sample_request GET ''/health'' (Some ''Bearer good'')) =
     (Sent \<lparr>status = 200, payload = Text health_text\<rparr>, [])
   \<and>
   credential sample_world (sample_request GET ''/health'' (Some ''Bearer bad'')) = None \<and>
   (\<exists>r. gateway sample_world (sample_request GET ''/health'' (Some ''Bearer bad'')) = (Sent r, []) \<and>
        (status r = 401 \<or> status r = 403))"
  using health_behind_gate [of sample_world "sample_request GET ''/health'' (Some ''Bearer good'')"]
    health_behind_gate [of sample_world "sample_request GET ''/health'' (Some ''Bearer bad'')"]
  by (simp add: sample_simps)

text \<open>
  Claim C3, as it is written, fails: an admitted GET request to \<open>/health\<close> that carries
  no credential is answered 401.
\<close>

theorem health_without_credential:
  "admitted sample_world (sample_request GET ''/health'' None) \<and>
   method (sample_request GET ''/health'' None) = GET \<and>
   originalUrl (sample_request GET ''/health'' None) = ''/health'' \<and>
   gateway sample_world (sample_request GET ''/health'' None) =
     (Sent \<lparr>status = 401, payload = Json (JObj [(''message'', JStr ''No token provided'')])\<rparr>, [])"
  by (simp add: sample_simps gateway_def app_def gate_def mounted_def strip_mount_def
      morganMiddleware_def rateLimit_def cors_def verifyJWT_def json_message_def)

text \<open>
  Claim C9. The three bridged endpoints are behind the gate: an admitted request to one
  of them without a valid bearer credential is answered 401 or 403, and nothing leaves
  the gateway, so no gRPC client is called.
\<close>

theorem bridged_endpoints_gated:
  assumes "admitted w req" "credential w req = None"
    "(method req, pathname (originalUrl req)) \<in> bridged_endpoints"
  shows "\<exists>r. gateway w req = (Sent r, []) \<and> (status r = 401 \<or> status r = 403)"
proof -
  have n: "\<not> prefix ''/auth'' (pathname (originalUrl req))"
    using assms(3) by (auto simp: bridged_endpoints_def)
  show ?thesis
    by (rule gate_block [OF assms(1) n assms(2)])
qed

theorem bridged_endpoints_gated_witness:
  "admitted sample_world (sample_request POST ''/api/tour'' (Some ''Basic abc'')) \<and>
   credential sample_world (sample_request POST ''/api/tour'' (Some ''Basic abc'')) = None \<and>
   (POST, ''/api/tour'') \<in> bridged_endpoints \<and>
   (\<exists>r. gateway sample_world (sample_request POST ''/api/tour'' (Some ''Basic abc'')) = (Sent r, []) \<and>
        (status r = 401 \<or> status r = 403))"
  using bridged_endpoints_gated [of sample_world "sample_request POST ''/api/tour'' (Some ''Basic abc'')"]
  by (simp add: sample_simps)


subsection \<open>Routing and rewriting\<close>

lemma quiet_callbacks:
  "quiet (auth_options w)" "quiet (stakeholders_options w)" "quiet (blog_options w)"
  "quiet (tour_options w)" "quiet (followers_options w)" "quiet (carts_options w)"
  by (simp_all add: quiet_def option_defs onProxyReq_guarded_def onProxyRes_local_def
      logger_info_def try_catch_def resolve_def)

text \<open>Such a route always forwards the rewritten URL to its target.\<close>

lemma proxy_forward:
  assumes "quiet opts"
  shows "\<exists>out. createProxyMiddleware w opts u req =
        Done out [Forward (target opts) (case pathRewrite opts of None \<Rightarrow> u | Some f \<Rightarrow> f u)]"
proof -
  let ?p = "case pathRewrite opts of None \<Rightarrow> u | Some f \<Rightarrow> f u"
  obtain l where q: "onProxyReq opts req ?p = Inr l"
    using assms unfolding quiet_def by blast
  have s: "\<exists>l. onProxyRes opts req st = Inr l" for st
    using assms unfolding quiet_def by blast
  show ?thesis
  proof (cases "upstream w (target opts) (method req) ?p")
    case (Inl failure)
    then show ?thesis
      using q by (cases failure) (simp add: createProxyMiddleware_def split: option.splits)
  next
    case (Inr r)
    obtain l' where "onProxyRes opts req (status r) = Inr l'"
      using s by blast
    with Inr q show ?thesis
      by (simp add: createProxyMiddleware_def)
  qed
qed

text \<open>The route mounted at \<open>/api/tour-execution\<close> dies in its first callback.\<close>

lemma tour_execution_middleware:
  "createProxyMiddleware w (tour_execution_options w) u req =
     Done (Crashed (ReferenceError ''target'')) []"
  by (simp add: createProxyMiddleware_def tour_execution_options_def
      onProxyReq_tour_execution_def logger_info_def resolve_def module_bindings_def
      node_globals_def)

lemma under_mount:
  "mounted m p \<Longrightarrow> m \<noteq> [] \<Longrightarrow> p = m \<or> (\<exists>rest. p = m @ CHR ''/'' # rest)"
  unfolding mounted_def prefix_def by auto

text \<open>
  A request under one of the following mount paths passes every layer registered before
  that mount and is finished by its proxy middleware.
\<close>

lemma dispatch_tour_execution:
  assumes "mounted ''/api/tour-execution'' (pathname (originalUrl req))"
  shows "dispatch (routes w) req =
     (case createProxyMiddleware w (tour_execution_options w)
             (strip_mount ''/api/tour-execution'' (originalUrl req)) req of
        Next req' \<Rightarrow> dispatch [] req'
      | Fail e sent \<Rightarrow> handle_error [] e req sent
      | Done out fx \<Rightarrow> (out, fx))"
proof -
  consider (bare) "pathname (originalUrl req) = ''/api/tour-execution''"
    | (sub) rest where "pathname (originalUrl req) = ''/api/tour-execution'' @ CHR ''/'' # rest"
    using under_mount [OF assms] by auto
  then show ?thesis
  proof cases
    case bare
    then show ?thesis
      by (simp add: routes_def mounted_def route_path_def method_matches_def
          tour_execution_middleware)
  next
    case sub
    then show ?thesis
      by (simp add: routes_def mounted_def route_path_def method_matches_def
          tour_execution_middleware)
  qed
qed

lemma dispatch_auth:
  assumes "mounted ''/auth'' (pathname (originalUrl req))"
  shows "\<exists>out.
     createProxyMiddleware w (auth_options w) (strip_mount ''/auth'' (originalUrl req)) req =
       Done out [Forward (target (auth_options w))
                  (case pathRewrite (auth_options w) of
                     None \<Rightarrow> strip_mount ''/auth'' (originalUrl req)
                   | Some f \<Rightarrow> f (strip_mount ''/auth'' (originalUrl req)))] \<and>
     dispatch (routes w) req =
       (out, [Forward (target (auth_options w))
                (case pathRewrite (auth_options w) of
                   None \<Rightarrow> strip_mount ''/auth'' (originalUrl req)
                 | Some f \<Rightarrow> f (strip_mount ''/auth'' (originalUrl req)))])"
proof -
  obtain out where o:
    "createProxyMiddleware w (auth_options w) (strip_mount ''/auth'' (originalUrl req)) req =
       Done out [Forward (target (auth_options w))
                  (case pathRewrite (auth_options w) of
                     None \<Rightarrow> strip_mount ''/auth'' (originalUrl req)
                   | Some f \<Rightarrow> f (strip_mount ''/auth'' (originalUrl req)))]"
    using proxy_forward [OF quiet_callbacks(1)] by blast
  consider (bare) "pathname (originalUrl req) = ''/auth''"
    | (sub) rest where "pathname (originalUrl req) = ''/auth'' @ CHR ''/'' # rest"
    using under_mount [OF assms] by auto
  then have "dispatch (routes w) req =
       (out, [Forward (target (auth_options w))
                (case pathRewrite (auth_options w) of
                   None \<Rightarrow> strip_mount ''/auth'' (originalUrl req)
                 | Some f \<Rightarrow> f (strip_mount ''/auth'' (originalUrl req)))])"
  proof cases
    case bare
    then show ?thesis
      by (simp add: routes_def mounted_def route_path_def method_matches_def o)
  next
    case sub
    then show ?thesis
      by (simp add: routes_def mounted_def route_path_def method_matches_def o)
  qed
  with o show ?thesis by blast
qed

lemma dispatch_stakeholders:
  assumes "mounted ''/stakeholders'' (pathname (originalUrl req))"
  shows "\<exists>out.
     createProxyMiddleware w (stakeholders_options w) (strip_mount ''/stakeholders'' (originalUrl req)) req =
       Done out [Forward (target (stakeholders_options w))
                  (case pathRewrite (stakeholders_options w) of
                     None \<Rightarrow> strip_mount ''/stakeholders'' (originalUrl req)
                   | Some f \<Rightarrow> f (strip_mount ''/stakeholders'' (originalUrl req)))] \<and>
     dispatch (routes w) req =
       (out, [Forward (target (stakeholders_options w))
                (case pathRewrite (stakeholders_options w) of
                   None \<Rightarrow> strip_mount ''/stakeholders'' (originalUrl req)
                 | Some f \<Rightarrow> f (strip_mount ''/stakeholders'' (originalUrl req)))])"
proof -
  obtain out where o:
    "createProxyMiddleware w (stakeholders_options w) (strip_mount ''/stakeholders'' (originalUrl req)) req =
       Done out [Forward (target (stakeholders_options w))
                  (case pathRewrite (stakeholders_options w) of
                     None \<Rightarrow> strip_mount ''/stakeholders'' (originalUrl req)
                   | Some f \<Rightarrow> f (strip_mount ''/stakeholders'' (originalUrl req)))]"
    using proxy_forward [OF quiet_callbacks(2)] by blast
  consider (bare) "pathname (originalUrl req) = ''/stakeholders''"
    | (sub) rest where "pathname (originalUrl req) = ''/stakeholders'' @ CHR ''/'' # rest"
    using under_mount [OF assms] by auto
  then have "dispatch (routes w) req =
       (out, [Forward (target (stakeholders_options w))
                (case pathRewrite (stakeholders_options w) of
                   None \<Rightarrow> strip_mount ''/stakeholders'' (originalUrl req)
                 | Some f \<Rightarrow> f (strip_mount ''/stakeholders'' (originalUrl req)))])"
  proof cases
    case bare
    then show ?thesis
      by (simp add: routes_def mounted_def route_path_def method_matches_def o)
  next
    case sub
    then show ?thesis
      by (simp add: routes_def mounted_def route_path_def method_matches_def o)
  qed
  with o show ?thesis by blast
qed

lemma dispatch_followers:
  assumes "mounted ''/api/followers'' (pathname (originalUrl req))"
  shows "\<exists>out.
     createProxyMiddleware w (followers_options w) (strip_mount ''/api/followers'' (originalUrl req)) req =
       Done out [Forward (target (followers_options w))
                  (case pathRewrite (followers_options w) of
                     None \<Rightarrow> strip_mount ''/api/followers'' (originalUrl req)
                   | Some f \<Rightarrow> f (strip_mount ''/api/followers'' (originalUrl req)))] \<and>
     dispatch (routes w) req =
       (out, [Forward (target (followers_options w))
                (case pathRewrite (followers_options w) of
                   None \<Rightarrow> strip_mount ''/api/followers'' (originalUrl req)
                 | Some f \<Rightarrow> f (strip_mount ''/api/followers'' (originalUrl req)))])"
proof -
  obtain out where o:
    "createProxyMiddleware w (followers_options w) (strip_mount ''/api/followers'' (originalUrl req)) req =
       Done out [Forward (target (followers_options w))
                  (case pathRewrite (followers_options w) of
                     None \<Rightarrow> strip_mount ''/api/followers'' (originalUrl req)
                   | Some f \<Rightarrow> f (strip_mount ''/api/followers'' (originalUrl req)))]"
    using proxy_forward [OF quiet_callbacks(5)] by blast
  consider (bare) "pathname (originalUrl req) = ''/api/followers''"
    | (sub) rest where "pathname (originalUrl req) = ''/api/followers'' @ CHR ''/'' # rest"
    using under_mount [OF assms] by auto
  then have "dispatch (routes w) req =
       (out, [Forward (target (followers_options w))
                (case pathRewrite (followers_options w) of
                   None \<Rightarrow> strip_mount ''/api/followers'' (originalUrl req)
                 | Some f \<Rightarrow> f (strip_mount ''/api/followers'' (originalUrl req)))])"
  proof cases
    case bare
    then show ?thesis
      by (simp add: routes_def mounted_def route_path_def method_matches_def o)
  next
    case sub
    then show ?thesis
      by (simp add: routes_def mounted_def route_path_def method_matches_def o)
  qed
  with o show ?thesis by blast
qed

text \<open>
  Claim C1, as the code has it. No path that starts with \<open>/api/tour-execution\<close> is matched
  by the layer mounted at \<open>/api/tour\<close> or by the route \<open>POST /api/tour\<close>, although both
  are registered first. A request whose path is \<open>/api/tour-execution\<close> or goes on below
  it (such as \<open>/api/tour-execution/7\<close>) is handed, with the mount path stripped, to the
  middleware mounted at \<open>/api/tour-execution\<close>, and what this middleware does is the
  outcome of the request; its target is the tour service and its rewrite puts
  \<open>/api/tour-execution\<close> back in front of the stripped path. With a valid credential the
  whole gateway hands the request to that middleware.
\<close>

theorem tour_execution_selected:
  "(prefix ''/api/tour-execution'' (pathname (originalUrl req)) \<longrightarrow>
      \<not> mounted ''/api/tour'' (pathname (originalUrl req)) \<and>
      \<not> route_path ''/api/tour'' (pathname (originalUrl req)))
   \<and>
   target (tour_execution_options w) = env w ''TOUR_SERVICE_URL'' \<and>
   (\<exists>f. pathRewrite (tour_execution_options w) = Some f \<and>
        (\<forall>u. f u = ''/api/tour-execution'' @ u))
   \<and>
   (pathname (originalUrl req) = ''/api/tour-execution'' \<or>
    prefix ''/api/tour-execution/'' (pathname (originalUrl req)) \<longrightarrow>
      (\<exists>out fx.
         createProxyMiddleware w (tour_execution_options w)
           (strip_mount ''/api/tour-execution'' (originalUrl req)) req = Done out fx \<and>
         dispatch (routes w) req = (out, fx)) \<and>
      (\<forall>claims. admitted w req \<and> credential w req = Some claims \<longrightarrow>
         (\<exists>out fx.
            createProxyMiddleware w (tour_execution_options w)
              (strip_mount ''/api/tour-execution'' (originalUrl req))
              (req\<lparr>user := Some claims\<rparr>) = Done out fx \<and>
            gateway w req = (out, fx))))"
proof -
  have shadow: "\<not> mounted ''/api/tour'' (pathname (originalUrl req)) \<and>
        \<not> route_path ''/api/tour'' (pathname (originalUrl req))"
    if "prefix ''/api/tour-execution'' (pathname (originalUrl req))"
    using that by (auto simp: mounted_def route_path_def prefix_def)
  have rule: "target (tour_execution_options w) = env w ''TOUR_SERVICE_URL'' \<and>
      (\<exists>f. pathRewrite (tour_execution_options w) = Some f \<and>
           (\<forall>u. f u = ''/api/tour-execution'' @ u))"
    by (simp add: tour_execution_options_def)
  have selected: "\<exists>out fx.
         createProxyMiddleware w (tour_execution_options w)
           (strip_mount ''/api/tour-execution'' (originalUrl r)) r = Done out fx \<and>
         dispatch (routes w) r = (out, fx)"
    if "mounted ''/api/tour-execution'' (pathname (originalUrl r))" for r
    unfolding dispatch_tour_execution [OF that]
    by (simp add: tour_execution_middleware)
  have whole: "\<exists>out fx.
            createProxyMiddleware w (tour_execution_options w)
              (strip_mount ''/api/tour-execution'' (originalUrl req))
              (req\<lparr>user := Some claims\<rparr>) = Done out fx \<and>
            gateway w req = (out, fx)"
    if u: "pathname (originalUrl req) = ''/api/tour-execution'' \<or>
           prefix ''/api/tour-execution/'' (pathname (originalUrl req))"
      and a: "admitted w req" and c: "credential w req = Some claims" for claims
  proof -
    have n: "\<not> prefix ''/auth'' (pathname (originalUrl req))"
      using u by (auto simp: prefix_def)
    have m: "mounted ''/api/tour-execution'' (pathname (originalUrl (req\<lparr>user := Some claims\<rparr>)))"
      using u by (simp add: mounted_def)
    show ?thesis
      using selected [OF m] unfolding gate_pass [OF a n c] by simp
  qed
  have under: "mounted ''/api/tour-execution'' (pathname (originalUrl req))"
    if "pathname (originalUrl req) = ''/api/tour-execution'' \<or>
        prefix ''/api/tour-execution/'' (pathname (originalUrl req))"
    using that by (simp add: mounted_def)
  from shadow rule selected [OF under] whole show ?thesis by blast
qed

theorem tour_execution_selected_witness:
  "prefix ''/api/tour-execution/''
     (pathname (originalUrl (sample_request GET ''/api/tour-execution/7'' (Some ''Bearer good'')))) \<and>
   admitted sample_world (sample_request GET ''/api/tour-execution/7'' (Some ''Bearer good'')) \<and>
   credential sample_world (sample_request GET ''/api/tour-execution/7'' (Some ''Bearer good'')) =
     Some (JObj [(''sub'', JStr ''u1'')]) \<and>
   \<not> mounted ''/api/tour'' ''/api/tour-execution/7'' \<and>
   (\<exists>out fx.
      createProxyMiddleware sample_world (tour_execution_options sample_world) ''/7''
        ((sample_request GET ''/api/tour-execution/7'' (Some ''Bearer good''))
           \<lparr>user := Some (JObj [(''sub'', JStr ''u1'')])\<rparr>) = Done out fx \<and>
      gateway sample_world (sample_request GET ''/api/tour-execution/7'' (Some ''Bearer good'')) =
        (out, fx))"
  using tour_execution_selected
    [of "sample_request GET ''/api/tour-execution/7'' (Some ''Bearer good'')" sample_world]
  by (simp add: sample_simps strip_mount_def)

text \<open>
  Claim C1, as it is written, fails: a path may start with \<open>/api/tour-execution\<close> and
  still match no rule. A request for \<open>/api/tour-executions/7\<close> is outside the mount at
  \<open>/api/tour-execution\<close>, is handed to no proxy and is answered 404.
\<close>

theorem tour_execution_prefix_unmatched:
  "prefix ''/api/tour-execution''
     (pathname (originalUrl (sample_request GET ''/api/tour-executions/7'' (Some ''Bearer good'')))) \<and>
   \<not> mounted ''/api/tour-execution'' ''/api/tour-executions/7'' \<and>
   gateway sample_world (sample_request GET ''/api/tour-executions/7'' (Some ''Bearer good'')) =
     (Sent \<lparr>status = 404, payload = Text ''Cannot GET /api/tour-executions/7''\<rparr>, [])"
  by (simp add: sample_simps gateway_def app_def gate_def route_simps
      morganMiddleware_def rateLimit_def cors_def verifyJWT_def)

text \<open>
  Claim C5, as the code has it. A request matched by a proxy route is forwarded with the
  route's rewrite of the mount-stripped URL. Under \<open>/auth\<close> the upstream receives
  \<open>/auth\<close> followed by the stripped URL: that is the original URL for a request below
  \<open>/auth/\<close>, and \<open>/auth/\<close> for the bare \<open>/auth\<close>. Under \<open>/api/followers\<close> the upstream
  receives the stripped URL after the table's one rule, so a request for
  \<open>/api/followers/x\<close> arrives as \<open>/x\<close> whenever \<open>x\<close> does not itself begin with
  \<open>api/followers\<close>. Under \<open>/stakeholders\<close> the stripped URL is forwarded unchanged.
\<close>

theorem forwarded_path:
  "(mounted ''/auth'' (pathname (originalUrl req)) \<longrightarrow>
      snd (dispatch (routes w) req) =
        [Forward (env w ''AUTH_SERVICE_URL'') (''/auth'' @ strip_mount ''/auth'' (originalUrl req))])
   \<and>
   (prefix ''/auth/'' (originalUrl req) \<longrightarrow>
      snd (dispatch (routes w) req) = [Forward (env w ''AUTH_SERVICE_URL'') (originalUrl req)])
   \<and>
   (originalUrl req = ''/auth'' \<longrightarrow>
      snd (dispatch (routes w) req) = [Forward (env w ''AUTH_SERVICE_URL'') ''/auth/''])
   \<and>
   (mounted ''/api/followers'' (pathname (originalUrl req)) \<longrightarrow>
      snd (dispatch (routes w) req) =
        [Forward (env w ''FOLLOWERS_SERVICE_URL'')
           (rewrite_rule ''/api/followers'' [] (strip_mount ''/api/followers'' (originalUrl req)))])
   \<and>
   (\<forall>x. originalUrl req = ''/api/followers/'' @ x \<and> \<not> prefix ''api/followers'' x \<longrightarrow>
      snd (dispatch (routes w) req) = [Forward (env w ''FOLLOWERS_SERVICE_URL'') (''/'' @ x)])
   \<and>
   (mounted ''/stakeholders'' (pathname (originalUrl req)) \<longrightarrow>
      snd (dispatch (routes w) req) =
        [Forward (env w ''STAKEHOLDERS_SERVICE_URL'')
           (strip_mount ''/stakeholders'' (originalUrl req))])"
proof -
  have auth: "snd (dispatch (routes w) req) =
        [Forward (env w ''AUTH_SERVICE_URL'') (''/auth'' @ strip_mount ''/auth'' (originalUrl req))]"
    if "mounted ''/auth'' (pathname (originalUrl req))"
    using dispatch_auth [OF that, of w] by (auto simp: auth_options_def)
  have followers: "snd (dispatch (routes w) req) =
        [Forward (env w ''FOLLOWERS_SERVICE_URL'')
           (rewrite_rule ''/api/followers'' [] (strip_mount ''/api/followers'' (originalUrl req)))]"
    if "mounted ''/api/followers'' (pathname (originalUrl req))"
    using dispatch_followers [OF that, of w] by (auto simp: followers_options_def)
  have stakeholders: "snd (dispatch (routes w) req) =
        [Forward (env w ''STAKEHOLDERS_SERVICE_URL'')
           (strip_mount ''/stakeholders'' (originalUrl req))]"
    if "mounted ''/stakeholders'' (pathname (originalUrl req))"
    using dispatch_stakeholders [OF that, of w] by (auto simp: stakeholders_options_def)
  have sub: "snd (dispatch (routes w) req) = [Forward (env w ''AUTH_SERVICE_URL'') (originalUrl req)]"
    if p: "prefix ''/auth/'' (originalUrl req)"
  proof -
    have "prefix ''/auth/'' (pathname (originalUrl req))"
      using p prefix_pathname [of "''/auth/''" "originalUrl req"] by simp
    then have m: "mounted ''/auth'' (pathname (originalUrl req))"
      by (simp add: mounted_def)
    have "''/auth'' @ strip_mount ''/auth'' (originalUrl req) = originalUrl req"
      using p by (auto simp: strip_mount_def prefix_def)
    with auth [OF m] show ?thesis by simp
  qed
  have bare: "snd (dispatch (routes w) req) = [Forward (env w ''AUTH_SERVICE_URL'') ''/auth/'']"
    if u: "originalUrl req = ''/auth''"
  proof -
    have m: "mounted ''/auth'' (pathname (originalUrl req))"
      using u by (simp add: mounted_def pathname_def)
    show ?thesis
      using auth [OF m] u by (simp add: strip_mount_def)
  qed
  have fx: "snd (dispatch (routes w) req) = [Forward (env w ''FOLLOWERS_SERVICE_URL'') (''/'' @ x)]"
    if u: "originalUrl req = ''/api/followers/'' @ x" and x: "\<not> prefix ''api/followers'' x" for x
  proof -
    have "prefix ''/api/followers/'' (pathname (originalUrl req))"
      using u prefix_pathname [of "''/api/followers/''" "originalUrl req"] by simp
    then have m: "mounted ''/api/followers'' (pathname (originalUrl req))"
      by (simp add: mounted_def)
    have "rewrite_rule ''/api/followers'' [] (strip_mount ''/api/followers'' (originalUrl req)) =
            ''/'' @ x"
      using u x by (simp add: strip_mount_def rewrite_rule_def)
    with followers [OF m] show ?thesis by simp
  qed
  from auth sub bare followers fx stakeholders show ?thesis by blast
qed

theorem forwarded_path_witness:
  "prefix ''/auth/'' (originalUrl (sample_request POST ''/auth/login'' None)) \<and>
   snd (dispatch (routes sample_world) (sample_request POST ''/auth/login'' None)) =
     [Forward (Some ''http://auth:3001'') ''/auth/login''] \<and>
   \<not> prefix ''api/followers'' ''42?page=2'' \<and>
   snd (dispatch (routes sample_world) (sample_request GET ''/api/followers/42?page=2'' None)) =
     [Forward (Some ''http://followers:3005'') ''/42?page=2''] \<and>
   mounted ''/stakeholders'' (pathname (originalUrl (sample_request GET ''/stakeholders/me'' None))) \<and>
   snd (dispatch (routes sample_world) (sample_request GET ''/stakeholders/me'' None)) =
     [Forward (Some ''http://stakeholders:3002'') ''/me'']"
  using forwarded_path [of "sample_request POST ''/auth/login'' None" sample_world]
    forwarded_path [of "sample_request GET ''/api/followers/42?page=2'' None" sample_world]
    forwarded_path [of "sample_request GET ''/stakeholders/me'' None" sample_world]
  by (simp add: sample_simps mounted_def strip_mount_def rewrite_rule_def)

text \<open>
  Claim C5, as it is written, fails in two places. A request for the bare \<open>/auth\<close>
  reaches the authentication service as \<open>/auth/\<close>, not as the original path; and a
  request for \<open>/api/followers/api/followers/y\<close> reaches the followers service as \<open>/y\<close>,
  not as \<open>/api/followers/y\<close>.
\<close>

theorem forwarded_path_differs:
  "gateway sample_world (sample_request GET ''/auth'' None) =
     (Sent \<lparr>status = 200, payload = Text ''/auth/''\<rparr>, [Forward (Some ''http://auth:3001'') ''/auth/''])
   \<and>
   gateway sample_world
     (sample_request GET ''/api/followers/api/followers/y'' (Some ''Bearer good'')) =
     (Sent \<lparr>status = 200, payload = Text ''/y''\<rparr>, [Forward (Some ''http://followers:3005'') ''/y''])"
  by (simp add: sample_simps gateway_def app_def gate_def route_simps
      morganMiddleware_def rateLimit_def cors_def verifyJWT_def
      createProxyMiddleware_def auth_options_def followers_options_def rewrite_rule_def Let_def
      callback_simps)


subsection \<open>The bridged endpoints\<close>

lemma bridged_not_auth:
  "(method req, pathname (originalUrl req)) \<in> bridged_endpoints \<Longrightarrow>
   \<not> prefix ''/auth'' (pathname (originalUrl req))"
  by (auto simp: bridged_endpoints_def)

lemma bridged_cases:
  assumes "(method req, pathname (originalUrl req)) \<in> bridged_endpoints"
  obtains
    (blog) "method req = POST" "pathname (originalUrl req) = ''/api/blog''"
  | (comment) "method req = PATCH" "pathname (originalUrl req) = ''/api/blog/comment''"
  | (tour) "method req = POST" "pathname (originalUrl req) = ''/api/tour''"
  using assms unfolding bridged_endpoints_def by auto

text \<open>Past the gate, a bridged endpoint with a parsed body makes its one gRPC call.\<close>

lemma bridged_dispatch:
  assumes "(method req, pathname (originalUrl req)) \<in> bridged_endpoints"
    "express_json w req = Inr j" "j \<noteq> JNull"
  shows "\<exists>msg. dispatch (routes w) req =
           (Sent (grpc_callback (rpc w (rpc_name (method req, pathname (originalUrl req))) msg)),
            [RpcCall (rpc_name (method req, pathname (originalUrl req))) msg])"
  using assms(1)
proof (cases rule: bridged_cases)
  case blog
  then show ?thesis
    using assms(2,3)
    by (cases j)
      (simp_all add: route_simps json_parser_def blog_create_def bridge_def destructure_def
        rpc_name_def)
next
  case comment
  then show ?thesis
    using assms(2,3)
    by (cases j)
      (simp_all add: route_simps json_parser_def blog_comment_def bridge_def destructure_def
        rpc_name_def)
next
  case tour
  then show ?thesis
    using assms(2,3)
    by (cases j)
      (simp_all add: route_simps json_parser_def tour_create_def bridge_def destructure_def
        rpc_name_def)
qed

text \<open>A body the parser rejects ends in the last error handler.\<close>

lemma bridged_parse_error:
  assumes "(method req, pathname (originalUrl req)) \<in> bridged_endpoints"
    "express_json w req = Inl e"
  shows "dispatch (routes w) req =
         (Sent \<lparr>status = 500,
                payload = Json (JObj [(''message'', JStr ''Gateway internal error'')])\<rparr>, [])"
  using assms(1)
proof (cases rule: bridged_cases)
  case blog
  then show ?thesis
    using assms(2)
    by (simp add: route_simps json_parser_def global_error_handler_def json_message_def)
next
  case comment
  then show ?thesis
    using assms(2)
    by (simp add: route_simps json_parser_def global_error_handler_def json_message_def)
next
  case tour
  then show ?thesis
    using assms(2)
    by (simp add: route_simps json_parser_def global_error_handler_def json_message_def)
qed

text \<open>
  Claim C4. For an admitted request to a bridged endpoint with a valid credential and a
  body that parsed, the gateway makes the one gRPC call of that endpoint and always
  writes a response: 201 with the reply as JSON body when the call succeeds, 404 with
  the message of the error when the call fails with status NOT_FOUND, 500 with the message
  of the error when it fails with any other status.
\<close>

theorem bridged_reply:
  assumes "admitted w req" "credential w req = Some claims"
    "(method req, pathname (originalUrl req)) \<in> bridged_endpoints"
    "express_json w (req\<lparr>user := Some claims\<rparr>) = Inr j" "j \<noteq> JNull"
  shows
    "\<exists>name msg. name = rpc_name (method req, pathname (originalUrl req)) \<and>
       snd (gateway w req) = [RpcCall name msg] \<and>
       (\<exists>r. fst (gateway w req) = Sent r) \<and>
       (\<forall>reply. rpc w name msg = Inr reply \<longrightarrow>
          fst (gateway w req) = Sent \<lparr>status = 201, payload = Json reply\<rparr>) \<and>
       (\<forall>err. rpc w name msg = Inl err \<and> code err = NOT_FOUND \<longrightarrow>
          fst (gateway w req) =
            Sent \<lparr>status = 404, payload = Json (JObj [(''message'', JStr (message err))])\<rparr>) \<and>
       (\<forall>err. rpc w name msg = Inl err \<and> code err \<noteq> NOT_FOUND \<longrightarrow>
          fst (gateway w req) =
            Sent \<lparr>status = 500, payload = Json (JObj [(''message'', JStr (message err))])\<rparr>)"
proof -
  let ?req = "req\<lparr>user := Some claims\<rparr>"
  let ?name = "rpc_name (method req, pathname (originalUrl req))"
  have b: "(method ?req, pathname (originalUrl ?req)) \<in> bridged_endpoints"
    using assms(3) by simp
  obtain msg where "dispatch (routes w) ?req =
      (Sent (grpc_callback (rpc w (rpc_name (method ?req, pathname (originalUrl ?req))) msg)),
       [RpcCall (rpc_name (method ?req, pathname (originalUrl ?req))) msg])"
    using bridged_dispatch [OF b assms(4,5)] by blast
  then have d: "dispatch (routes w) ?req =
      (Sent (grpc_callback (rpc w ?name msg)), [RpcCall ?name msg])"
    by simp
  have g: "gateway w req = dispatch (routes w) ?req"
    by (rule gate_pass [OF assms(1) bridged_not_auth [OF assms(3)] assms(2)])
  show ?thesis
    unfolding g d
    by (intro exI [of _ ?name] exI [of _ msg])
      (simp add: grpc_callback_def json_message_def)
qed

theorem bridged_reply_witness:
  "admitted sample_world (sample_request POST ''/api/blog'' (Some ''Bearer good'')) \<and>
   credential sample_world (sample_request POST ''/api/blog'' (Some ''Bearer good'')) =
     Some (JObj [(''sub'', JStr ''u1'')]) \<and>
   (POST, ''/api/blog'') \<in> bridged_endpoints \<and>
   (\<exists>msg. snd (gateway sample_world (sample_request POST ''/api/blog'' (Some ''Bearer good''))) =
            [RpcCall ''blogClient.Create'' msg]) \<and>
   fst (gateway sample_world (sample_request POST ''/api/blog'' (Some ''Bearer good''))) =
     Sent \<lparr>status = 201, payload = Json (JObj [(''id'', JNum 1)])\<rparr> \<and>
   fst (gateway failing_world (sample_request POST ''/api/blog'' (Some ''Bearer good''))) =
     Sent \<lparr>status = 500, payload = Json (JObj [(''message'', JStr ''unavailable'')])\<rparr>"
  using bridged_reply
      [of sample_world "sample_request POST ''/api/blog'' (Some ''Bearer good'')"
          "JObj [(''sub'', JStr ''u1'')]" "JObj [(''author'', JStr ''ann''), (''title'', JStr ''Alps'')]"]
    bridged_reply
      [of failing_world "sample_request POST ''/api/blog'' (Some ''Bearer good'')"
          "JObj [(''sub'', JStr ''u1'')]" "JObj [(''author'', JStr ''ann''), (''title'', JStr ''Alps'')]"]
  by (auto simp: sample_simps rpc_name_def NOT_FOUND_def)

subsection \<open>Failures\<close>

text \<open>
  Claim C6 fails on the \<open>/api/carts\<close> route. Its target is the payments service, but the
  502 its \<open>onError\<close> writes names the followers service, whose route has the same
  message: with the payments service down, a request for \<open>/api/carts/7\<close> is answered
  with that body.
\<close>

theorem carts_onError_names_followers:
  "target (carts_options w) = env w ''PAYMENTS_SERVICE_URL'' \<and>
   onError (carts_options w) errMessage req False =
     Some \<lparr>status = 502,
           payload = Json (JObj [(''message'', JStr ''Gateway failed to reach followers service''),
                                 (''error'', JStr errMessage)])\<rparr> \<and>
   onError (followers_options w) errMessage req False =
     onError (carts_options w) errMessage req False \<and>
   gateway failing_world (sample_request GET ''/api/carts/7'' (Some ''Bearer good'')) =
     (Sent \<lparr>status = 502,
            payload = Json (JObj [(''message'', JStr ''Gateway failed to reach followers service''),
                                  (''error'', JStr ''connect ECONNREFUSED'')])\<rparr>,
      [Forward (Some ''http://payments:3006'') ''/api/carts/7''])"
  by (simp add: sample_simps gateway_def app_def gate_def route_simps
      morganMiddleware_def rateLimit_def cors_def verifyJWT_def json_message_def
      createProxyMiddleware_def option_defs bad_gateway_def Let_def callback_simps)

text \<open>
  The other six routes do what the claim says: a 502, unless the headers have gone out,
  whose message names the service the route forwards to and whose error field is the
  message of the error.
\<close>

lemma onError_other_routes:
  "onError (auth_options w) m req False =
     Some \<lparr>status = 502,
           payload = Json (JObj [(''message'', JStr ''Gateway failed to reach auth service''),
                                 (''error'', JStr m)])\<rparr>"
  "onError (stakeholders_options w) m req False =
     Some \<lparr>status = 502,
           payload = Json (JObj [(''message'', JStr ''Gateway failed to reach stakeholders service''),
                                 (''error'', JStr m)])\<rparr>"
  "onError (blog_options w) m req False =
     Some \<lparr>status = 502,
           payload = Json (JObj [(''message'', JStr ''Gateway failed to reach blog service''),
                                 (''error'', JStr m)])\<rparr>"
  "onError (tour_options w) m req False =
     Some \<lparr>status = 502,
           payload = Json (JObj [(''message'', JStr ''Gateway failed to reach tour service''),
                                 (''error'', JStr m)])\<rparr>"
  "onError (tour_execution_options w) m req False =
     Some \<lparr>status = 502,
           payload = Json (JObj [(''message'', JStr ''Gateway failed to reach tour service''),
                                 (''error'', JStr m)])\<rparr>"
  "onError (followers_options w) m req False =
     Some \<lparr>status = 502,
           payload = Json (JObj [(''message'', JStr ''Gateway failed to reach followers service''),
                                 (''error'', JStr m)])\<rparr>"
  by (simp_all add: option_defs bad_gateway_def)

lemma handle_error_skips:
  "\<forall>l \<in> set ls. \<forall>h. l \<noteq> ErrorHandler h \<Longrightarrow>
   handle_error (ls @ ErrorHandler g # rest) e req sent =
     (case g e req sent of Some r \<Rightarrow> (Sent r, []) | None \<Rightarrow> (NoReply, []))"
proof (induction ls)
  case Nil
  then show ?case by simp
next
  case (Cons l ls)
  then show ?case by (cases l) auto
qed

lemma app_split: "app w = before_handler w @ [ErrorHandler global_error_handler]"
  by (simp add: app_def before_handler_def routes_def)

lemma before_handler_plain: "\<forall>l \<in> set (before_handler w). \<forall>h. l \<noteq> ErrorHandler h"
  by (simp add: before_handler_def gate_def routes_def)

text \<open>
  Inside Express's dispatch the last handler does catch every failure. Whatever the
  layers in front of it are, if one of them fails, the answer is the 500 with the fixed
  message when no headers have gone out, and nothing is written when they have.
\<close>

lemma dispatch_run:
  "\<forall>l \<in> set ls. \<forall>h. l \<noteq> ErrorHandler h \<Longrightarrow>
   dispatch (ls @ [ErrorHandler global_error_handler]) req =
     (case run ls req of
        Next req' \<Rightarrow>
          (Sent \<lparr>status = 404,
                 payload = Text (''Cannot '' @ show_method (method req') @ '' '' @
                                 pathname (originalUrl req'))\<rparr>, [])
      | Fail e sent \<Rightarrow>
          ((if sent then NoReply
            else Sent \<lparr>status = 500,
                       payload = Json (JObj [(''message'', JStr ''Gateway internal error'')])\<rparr>), [])
      | Done out fx \<Rightarrow> (out, fx))"
proof (induction ls arbitrary: req)
  case Nil
  then show ?case by simp
next
  case (Cons l ls)
  then have plain: "\<forall>l \<in> set ls. \<forall>h. l \<noteq> ErrorHandler h"
    by simp
  have err: "handle_error (ls @ [ErrorHandler global_error_handler]) e r sent =
      ((if sent then NoReply
        else Sent \<lparr>status = 500,
                   payload = Json (JObj [(''message'', JStr ''Gateway internal error'')])\<rparr>), [])"
    for e r sent
    using handle_error_skips [OF plain, of global_error_handler "[]" e r sent]
    by (simp add: global_error_handler_def json_message_def)
  show ?case
  proof (cases l)
    case (Use m h)
    then show ?thesis
      using Cons.IH [OF plain] err by (simp split: step.splits)
  next
    case (Route mt r hs)
    then show ?thesis
      using Cons.IH [OF plain] err by (simp split: step.splits)
  next
    case (ErrorHandler h)
    then show ?thesis
      using Cons.prems by simp
  qed
qed



text \<open>So it is for the gateway and the fifteen layers it registers before the handler.\<close>

lemma gateway_run:
  "gateway w req =
     (case run (before_handler w) req of
        Next req' \<Rightarrow>
          (Sent \<lparr>status = 404,
                 payload = Text (''Cannot '' @ show_method (method req') @ '' '' @
                                 pathname (originalUrl req'))\<rparr>, [])
      | Fail e sent \<Rightarrow>
          ((if sent then NoReply
            else Sent \<lparr>status = 500,
                       payload = Json (JObj [(''message'', JStr ''Gateway internal error'')])\<rparr>), [])
      | Done out fx \<Rightarrow> (out, fx))"
  unfolding gateway_def app_split by (rule dispatch_run [OF before_handler_plain])

text \<open>
  A proxy route with quiet callbacks ends every request with a response, or with nothing
  more written after an upstream failed when the headers had gone out.
\<close>

lemma onError_silent:
  "onError (auth_options w) m r s = None \<Longrightarrow> s"
  "onError (stakeholders_options w) m r s = None \<Longrightarrow> s"
  "onError (blog_options w) m r s = None \<Longrightarrow> s"
  "onError (tour_options w) m r s = None \<Longrightarrow> s"
  "onError (followers_options w) m r s = None \<Longrightarrow> s"
  "onError (carts_options w) m r s = None \<Longrightarrow> s"
  by (simp_all add: option_defs bad_gateway_def split: if_splits)

lemma proxy_quiet_outcome:
  assumes "quiet opts" "\<And>m r s. onError opts m r s = None \<Longrightarrow> s"
  shows "\<exists>out fx. createProxyMiddleware w opts u req = Done out fx \<and>
           ((\<exists>r. out = Sent r) \<or>
            (out = NoReply \<and> (\<exists>t m p msg. upstream w t m p = Inl (msg, True))))"
proof -
  let ?p = "case pathRewrite opts of None \<Rightarrow> u | Some f \<Rightarrow> f u"
  obtain l where q: "onProxyReq opts req ?p = Inr l"
    using assms(1) unfolding quiet_def by blast
  have s: "\<exists>l. onProxyRes opts req st = Inr l" for st
    using assms(1) unfolding quiet_def by blast
  show ?thesis
  proof (cases "upstream w (target opts) (method req) ?p")
    case (Inl failure)
    obtain msg sent where f: "failure = (msg, sent)"
      by (cases failure)
    show ?thesis
    proof (cases "onError opts msg req sent")
      case None
      then have "sent"
        by (rule assms(2))
      with None q Inl f show ?thesis
        by (auto simp: createProxyMiddleware_def)
    next
      case (Some r)
      then show ?thesis
        using q Inl f by (simp add: createProxyMiddleware_def)
    qed
  next
    case (Inr r)
    obtain l' where "onProxyRes opts req (status r) = Inr l'"
      using s by blast
    with Inr q show ?thesis
      by (simp add: createProxyMiddleware_def)
  qed
qed

lemma quiet_settled:
  fixes w :: world
  shows
  "\<exists>out fx. createProxyMiddleware w (auth_options w) u req = Done out fx \<and>
     ((\<exists>r. out = Sent r) \<or> (out = NoReply \<and> (\<exists>t m p msg. upstream w t m p = Inl (msg, True))))"
  "\<exists>out fx. createProxyMiddleware w (stakeholders_options w) u req = Done out fx \<and>
     ((\<exists>r. out = Sent r) \<or> (out = NoReply \<and> (\<exists>t m p msg. upstream w t m p = Inl (msg, True))))"
  "\<exists>out fx. createProxyMiddleware w (blog_options w) u req = Done out fx \<and>
     ((\<exists>r. out = Sent r) \<or> (out = NoReply \<and> (\<exists>t m p msg. upstream w t m p = Inl (msg, True))))"
  "\<exists>out fx. createProxyMiddleware w (tour_options w) u req = Done out fx \<and>
     ((\<exists>r. out = Sent r) \<or> (out = NoReply \<and> (\<exists>t m p msg. upstream w t m p = Inl (msg, True))))"
  "\<exists>out fx. createProxyMiddleware w (followers_options w) u req = Done out fx \<and>
     ((\<exists>r. out = Sent r) \<or> (out = NoReply \<and> (\<exists>t m p msg. upstream w t m p = Inl (msg, True))))"
  "\<exists>out fx. createProxyMiddleware w (carts_options w) u req = Done out fx \<and>
     ((\<exists>r. out = Sent r) \<or> (out = NoReply \<and> (\<exists>t m p msg. upstream w t m p = Inl (msg, True))))"
  by ((rule proxy_quiet_outcome; (rule quiet_callbacks | erule onError_silent))+)


text \<open>
  An invariant of the dispatch: if every handler either passes the request on with its
  URL unchanged, or fails before any header has gone out, or ends the request in a way
  \<open>Q\<close> allows, and every error handler answers such a failure, then the dispatch ends
  the request in a way \<open>Q\<close> allows.
\<close>

lemma handle_error_answers:
  "(\<And>g e r. ErrorHandler g \<in> set ls \<Longrightarrow> g e r False \<noteq> None) \<Longrightarrow>
   \<exists>x. handle_error ls e r False = (Sent x, [])"
proof (induction ls)
  case Nil
  then show ?case by simp
next
  case (Cons l ls)
  show ?case
  proof (cases l)
    case (Use m h)
    then show ?thesis using Cons by simp
  next
    case (Route mt p hs)
    then show ?thesis using Cons by simp
  next
    case (ErrorHandler g)
    then have "g e r False \<noteq> None"
      using Cons.prems [of g e r] by simp
    then show ?thesis
      using ErrorHandler by auto
  qed
qed

lemma dispatch_invariant:
  fixes Q :: "string \<Rightarrow> outcome \<Rightarrow> bool"
  assumes sent: "\<And>url r. Q url (Sent r)"
    and use: "\<And>m h r. Use m h \<in> set ls \<Longrightarrow> mounted m (pathname (originalUrl r)) \<Longrightarrow>
        (case h (strip_mount m (originalUrl r)) r of
           Next r' \<Rightarrow> originalUrl r' = originalUrl r
         | Fail e s \<Rightarrow> \<not> s
         | Done out fx \<Rightarrow> Q (originalUrl r) out)"
    and route: "\<And>mt p hs r. Route mt p hs \<in> set ls \<Longrightarrow>
        (case run_handlers hs (originalUrl r) r of
           Next r' \<Rightarrow> originalUrl r' = originalUrl r
         | Fail e s \<Rightarrow> \<not> s
         | Done out fx \<Rightarrow> Q (originalUrl r) out)"
    and handler: "\<And>g e r. ErrorHandler g \<in> set ls \<Longrightarrow> g e r False \<noteq> None"
  shows "Q (originalUrl req) (fst (dispatch ls req))"
  using use route handler
proof (induction ls arbitrary: req)
  case Nil
  show ?case by (simp add: sent)
next
  case (Cons l ls)
  have IH: "Q (originalUrl r) (fst (dispatch ls r))" for r
  proof (rule Cons.IH)
    fix m h and r' :: request
    assume "Use m h \<in> set ls" "mounted m (pathname (originalUrl r'))"
    then show "case h (strip_mount m (originalUrl r')) r' of
           Next r'' \<Rightarrow> originalUrl r'' = originalUrl r'
         | Fail e s \<Rightarrow> \<not> s
         | Done out fx \<Rightarrow> Q (originalUrl r') out"
      using Cons.prems(1) [of m h r'] by simp
  next
    fix mt p hs and r' :: request
    assume "Route mt p hs \<in> set ls"
    then show "case run_handlers hs (originalUrl r') r' of
           Next r'' \<Rightarrow> originalUrl r'' = originalUrl r'
         | Fail e s \<Rightarrow> \<not> s
         | Done out fx \<Rightarrow> Q (originalUrl r') out"
      using Cons.prems(2) [of mt p hs r'] by simp
  next
    fix g e and r' :: request
    assume "ErrorHandler g \<in> set ls"
    then show "g e r' False \<noteq> None"
      using Cons.prems(3) [of g e r'] by simp
  qed
  have err: "Q url (fst (handle_error ls e r False))" for url e r
  proof -
    obtain x where "handle_error ls e r False = (Sent x, [])"
      using handle_error_answers [of ls e r] Cons.prems(3) by auto
    then show ?thesis by (simp add: sent)
  qed
  show ?case
  proof (cases l)
    case (Use m h)
    show ?thesis
    proof (cases "mounted m (pathname (originalUrl req))")
      case True
      note ok = Cons.prems(1) [of m h req]
      show ?thesis
      proof (cases "h (strip_mount m (originalUrl req)) req")
        case (Next r')
        then have "originalUrl r' = originalUrl req"
          using ok Use True by simp
        then show ?thesis
          using Use True Next IH [of r'] by simp
      next
        case (Fail e s)
        then have "\<not> s"
          using ok Use True by simp
        then show ?thesis
          using Use True Fail err [of "originalUrl req" e req] by simp
      next
        case (Done out fx)
        then have "Q (originalUrl req) out"
          using ok Use True by simp
        then show ?thesis
          using Use True Done by simp
      qed
    next
      case False
      then show ?thesis using Use IH by simp
    qed
  next
    case (Route mt p hs)
    note ok = Cons.prems(2) [of mt p hs req]
    show ?thesis
    proof (cases "method_matches mt (method req) \<and> route_path p (pathname (originalUrl req))")
      case True
      show ?thesis
      proof (cases "run_handlers hs (originalUrl req) req")
        case (Next r')
        then have "originalUrl r' = originalUrl req"
          using ok Route by simp
        then show ?thesis
          using Route True Next IH [of r'] by simp
      next
        case (Fail e s)
        then have "\<not> s"
          using ok Route by simp
        then show ?thesis
          using Route True Fail err [of "originalUrl req" e req] by simp
      next
        case (Done out fx)
        then have "Q (originalUrl req) out"
          using ok Route by simp
        then show ?thesis
          using Route True Done by simp
      qed
    next
      case False
      then show ?thesis using Route IH by auto
    qed
  next
    case (ErrorHandler g)
    then show ?thesis using IH by simp
  qed
qed


lemma quiet_step:
  fixes w :: world and r :: request
  assumes "\<exists>out fx. createProxyMiddleware w opts u r = Done out fx \<and>
     ((\<exists>x. out = Sent x) \<or> (out = NoReply \<and> (\<exists>t m p msg. upstream w t m p = Inl (msg, True))))"
  shows "case createProxyMiddleware w opts u r of
           Next r' \<Rightarrow> originalUrl r' = originalUrl r
         | Fail e s \<Rightarrow> \<not> s
         | Done out fx \<Rightarrow> settled w (originalUrl r) out"
  using assms by (auto simp: settled_def) blast

lemma use_steps:
  assumes "Use m h \<in> set (app w)" "mounted m (pathname (originalUrl r))"
  shows "case h (strip_mount m (originalUrl r)) r of
           Next r' \<Rightarrow> originalUrl r' = originalUrl r
         | Fail e s \<Rightarrow> \<not> s
         | Done out fx \<Rightarrow> settled w (originalUrl r) out"
proof -
  consider "h = morganMiddleware" | "h = rateLimit w" | "h = cors w" | "h = verifyJWT w"
    | "h = createProxyMiddleware w (auth_options w)"
    | "h = createProxyMiddleware w (stakeholders_options w)"
    | "h = createProxyMiddleware w (blog_options w)"
    | "h = createProxyMiddleware w (tour_options w)"
    | "m = ''/api/tour-execution''" "h = createProxyMiddleware w (tour_execution_options w)"
    | "h = createProxyMiddleware w (followers_options w)"
    | "h = createProxyMiddleware w (carts_options w)"
    using assms(1) by (auto simp: app_def gate_def routes_def)
  then show ?thesis
  proof cases
    case 1
    then show ?thesis by (simp add: morganMiddleware_def)
  next
    case 2
    then show ?thesis by (simp add: rateLimit_def settled_def split: option.splits)
  next
    case 3
    then show ?thesis by (simp add: cors_def settled_def split: option.splits)
  next
    case 4
    then show ?thesis by (simp add: verifyJWT_def settled_def split: option.splits)
  next
    case 5
    then show ?thesis using quiet_step [OF quiet_settled(1)] by simp
  next
    case 6
    then show ?thesis using quiet_step [OF quiet_settled(2)] by simp
  next
    case 7
    then show ?thesis using quiet_step [OF quiet_settled(3)] by simp
  next
    case 8
    then show ?thesis using quiet_step [OF quiet_settled(4)] by simp
  next
    case 9
    then show ?thesis
      using assms(2) by (simp add: tour_execution_middleware settled_def)
  next
    case 10
    then show ?thesis using quiet_step [OF quiet_settled(5)] by simp
  next
    case 11
    then show ?thesis using quiet_step [OF quiet_settled(6)] by simp
  qed
qed

lemma bridge_step:
  "case run_handlers [json_parser w, bridge w name keys] u r of
           Next r' \<Rightarrow> originalUrl r' = originalUrl r
         | Fail e s \<Rightarrow> \<not> s
         | Done out fx \<Rightarrow> settled w (originalUrl r) out"
  by (simp add: json_parser_def bridge_def settled_def split: sum.splits)

lemma route_steps:
  assumes "Route mt p hs \<in> set (app w)"
  shows "case run_handlers hs (originalUrl r) r of
           Next r' \<Rightarrow> originalUrl r' = originalUrl r
         | Fail e s \<Rightarrow> \<not> s
         | Done out fx \<Rightarrow> settled w (originalUrl r) out"
proof -
  consider "hs = [json_parser w, blog_create w]" | "hs = [json_parser w, blog_comment w]"
    | "hs = [json_parser w, tour_create w]" | "hs = [health]"
    using assms by (auto simp: app_def gate_def routes_def)
  then show ?thesis
  proof cases
    case 1
    then show ?thesis using bridge_step by (simp add: blog_create_def)
  next
    case 2
    then show ?thesis using bridge_step by (simp add: blog_comment_def)
  next
    case 3
    then show ?thesis using bridge_step by (simp add: tour_create_def)
  next
    case 4
    then show ?thesis by (simp add: health_def settled_def)
  qed
qed

lemma gateway_settled: "settled w (originalUrl req) (fst (gateway w req))"
  unfolding gateway_def
proof (rule dispatch_invariant)
  show "settled w url (Sent r)" for url r
    by (simp add: settled_def)
next
  fix m h and r :: request
  assume "Use m h \<in> set (app w)" "mounted m (pathname (originalUrl r))"
  then show "case h (strip_mount m (originalUrl r)) r of
           Next r' \<Rightarrow> originalUrl r' = originalUrl r
         | Fail e s \<Rightarrow> \<not> s
         | Done out fx \<Rightarrow> settled w (originalUrl r) out"
    by (rule use_steps)
next
  fix mt p hs and r :: request
  assume "Route mt p hs \<in> set (app w)"
  then show "case run_handlers hs (originalUrl r) r of
           Next r' \<Rightarrow> originalUrl r' = originalUrl r
         | Fail e s \<Rightarrow> \<not> s
         | Done out fx \<Rightarrow> settled w (originalUrl r) out"
    by (rule route_steps)
next
  fix g e and r :: request
  assume "ErrorHandler g \<in> set (app w)"
  then have "g = global_error_handler"
    by (auto simp: app_def gate_def routes_def)
  then show "g e r False \<noteq> None"
    by (simp add: global_error_handler_def)
qed


subsection \<open>Start-up and the environment\<close>

lemma startup_Exit: "(startup h e = Exit 1) = (\<exists>k \<in> set requiredEnv. unset e k)"
  by (simp add: startup_def missingVars_def filter_empty_conv split: option.splits)

lemma loadClient_unset: "e key = None \<Longrightarrow> \<exists>err. loadClient h e file key = Some err"
  by (simp add: loadClient_def)

lemma startup_Listening:
  assumes "startup h e = Listening"
  shows "(\<forall>k \<in> set requiredEnv. \<not> unset e k) \<and>
         e ''BLOG_SERVICE_GRPC_HOST'' \<noteq> None \<and> e ''TOUR_SERVICE_GRPC_HOST'' \<noteq> None"
proof (intro conjI)
  show "\<forall>k \<in> set requiredEnv. \<not> unset e k"
    using assms startup_Exit [of h e] by auto
  show "e ''BLOG_SERVICE_GRPC_HOST'' \<noteq> None"
    using assms loadClient_unset [of e "''BLOG_SERVICE_GRPC_HOST''" h "''proto/blog.proto''"]
    by (auto simp: startup_def split: if_splits option.splits)
  show "e ''TOUR_SERVICE_GRPC_HOST'' \<noteq> None"
    using assms loadClient_unset [of e "''TOUR_SERVICE_GRPC_HOST''" h "''proto/tour.proto''"]
    by (auto simp: startup_def split: if_splits option.splits)
qed

lemma startup_Uncaught:
  assumes "\<forall>k \<in> set requiredEnv. \<not> unset e k"
    "e ''BLOG_SERVICE_GRPC_HOST'' = None \<or> e ''TOUR_SERVICE_GRPC_HOST'' = None"
  shows "\<exists>err. startup h e = Uncaught err"
proof (cases "startup h e")
  case (Exit n)
  then show ?thesis
    using assms(1) by (simp add: startup_def missingVars_def filter_empty_conv split: if_splits option.splits)
next
  case (Uncaught err)
  then show ?thesis by simp
next
  case Listening
  then show ?thesis
    using startup_Listening [OF Listening] assms(2) by auto
qed

lemma startup_ignores_secret: "startup h (e(''JWT_SECRET'' := v)) = startup h e"
proof -
  have "filter (unset (e(''JWT_SECRET'' := v))) requiredEnv = filter (unset e) requiredEnv"
    by (intro filter_cong) (auto simp: unset_def requiredEnv_def)
  moreover have "loadClient h (e(''JWT_SECRET'' := v)) f k = loadClient h e f k"
    if "k \<noteq> ''JWT_SECRET''" for f k
    using that by (simp add: loadClient_def)
  ultimately show ?thesis
    by (simp add: startup_def missingVars_def cong: option.case_cong)
qed

lemma forEach_check_Exit: "(forEach_check e ks = Exit 1) = (\<exists>k \<in> set ks. unset e k)"
  by (induction ks) auto

text \<open>
  Claim C8, as the code has it. If one of the six service base URLs on the list
  \<open>requiredEnv\<close> is unset or empty, the process exits with status 1 (and only then does
  it exit so); if the base URLs are there and the address of the blog or of the tour
  gRPC service is not set, building the client throws while the module is loaded and the
  process ends of that exception; so the gateway listens only with all six base URLs and
  both addresses set. The signing secret takes no part in start-up: the module starts the
  same way with and without it. The module \<open>src/src/index.js\<close> exits with status 1
  exactly when one of its five base URLs is unset or empty.
\<close>

theorem startup_checks:
  "(startup h e = Exit 1) = (\<exists>k \<in> set requiredEnv. unset e k) \<and>
   ((\<forall>k \<in> set requiredEnv. \<not> unset e k) \<and>
    (e ''BLOG_SERVICE_GRPC_HOST'' = None \<or> e ''TOUR_SERVICE_GRPC_HOST'' = None) \<longrightarrow>
      (\<exists>err. startup h e = Uncaught err)) \<and>
   (startup h e = Listening \<longrightarrow>
      (\<forall>k \<in> set requiredEnv. \<not> unset e k) \<and>
      e ''BLOG_SERVICE_GRPC_HOST'' \<noteq> None \<and> e ''TOUR_SERVICE_GRPC_HOST'' \<noteq> None) \<and>
   (\<forall>v. startup h (e(''JWT_SECRET'' := v)) = startup h e) \<and>
   (startup_index e = Exit 1) = (\<exists>k \<in> set requiredEnv_index. unset e k)"
  using startup_Exit [of h e] startup_Uncaught [of e h] startup_Listening [of h e]
    startup_ignores_secret [of h e] forEach_check_Exit [of e requiredEnv_index]
  unfolding startup_index_def by blast

theorem startup_checks_witness:
  "unset (full_env(''TOUR_SERVICE_URL'' := None)) ''TOUR_SERVICE_URL'' \<and>
   ''TOUR_SERVICE_URL'' \<in> set requiredEnv \<and>
   startup sample_host (full_env(''TOUR_SERVICE_URL'' := None)) = Exit 1 \<and>
   missingVars (full_env(''TOUR_SERVICE_GRPC_HOST'' := None)) = [] \<and>
   (full_env(''TOUR_SERVICE_GRPC_HOST'' := None)) ''TOUR_SERVICE_GRPC_HOST'' = None \<and>
   (\<exists>err. startup sample_host (full_env(''TOUR_SERVICE_GRPC_HOST'' := None)) = Uncaught err) \<and>
   startup sample_host full_env = Listening \<and>
   startup sample_host (full_env(''JWT_SECRET'' := Some ''s3cret'')) = Listening"
proof -
  have u: "unset (full_env(''TOUR_SERVICE_URL'' := None)) ''TOUR_SERVICE_URL''"
    by (simp add: unset_def)
  have r: "''TOUR_SERVICE_URL'' \<in> set requiredEnv"
    by (simp add: requiredEnv_def)
  have x: "startup sample_host (full_env(''TOUR_SERVICE_URL'' := None)) = Exit 1"
    using u r startup_checks [of sample_host "full_env(''TOUR_SERVICE_URL'' := None)"]
    by blast
  have a: "\<forall>k \<in> set requiredEnv. \<not> unset (full_env(''TOUR_SERVICE_GRPC_HOST'' := None)) k"
    by (simp add: requiredEnv_def unset_def full_env_def sample_env_def)
  have g: "(full_env(''TOUR_SERVICE_GRPC_HOST'' := None)) ''TOUR_SERVICE_GRPC_HOST'' = None"
    by simp
  have c: "\<exists>err. startup sample_host (full_env(''TOUR_SERVICE_GRPC_HOST'' := None)) = Uncaught err"
    using a g startup_checks [of sample_host "full_env(''TOUR_SERVICE_GRPC_HOST'' := None)"]
    by blast
  have m: "missingVars (full_env(''TOUR_SERVICE_GRPC_HOST'' := None)) = []"
    using a by (simp add: missingVars_def filter_empty_conv)
  have l: "startup sample_host full_env = Listening"
    by (simp add: startup_def missingVars_def requiredEnv_def unset_def loadClient_def
        full_env_def sample_env_def sample_host_def)
  have s: "startup sample_host (full_env(''JWT_SECRET'' := Some ''s3cret'')) = Listening"
    using l startup_checks [of sample_host full_env] by simp
  from u r x m g c l s show ?thesis by blast
qed

text \<open>
  Claim C8, as it is written, fails for the signing secret: with the six base URLs and
  both gRPC addresses set and no \<open>JWT_SECRET\<close>, the gateway starts and listens, and the
  gap shows at run time, when the request of a client with a token is answered 403.
\<close>

theorem startup_without_secret:
  "full_env ''JWT_SECRET'' = None \<and>
   startup sample_host full_env = Listening \<and>
   gateway secretless_world (sample_request GET ''/stakeholders/me'' (Some ''Bearer good'')) =
     (Sent \<lparr>status = 403,
            payload = Json (JObj [(''message'', JStr ''Invalid or expired token'')])\<rparr>, [])"
  by (simp add: startup_def missingVars_def requiredEnv_def unset_def loadClient_def
      sample_host_def sample_simps gateway_def app_def gate_def mounted_def strip_mount_def
      morganMiddleware_def rateLimit_def cors_def verifyJWT_def json_message_def)

subsection \<open>The callbacks of the tour-execution route\<close>

text \<open>
  Claim C10. The name \<open>target\<close> is bound neither by the parameters of the two callbacks
  of the \<open>/api/tour-execution\<close> route, nor by the module, nor by the runtime; the
  callbacks are not inside \<open>try\<close>/\<open>catch\<close>: whenever one of them is called, for any
  request, it raises a reference error for \<open>target\<close>. The callbacks of the other six
  routes never raise.
\<close>

theorem tour_execution_callbacks_raise:
  "''target'' \<notin> set ([''proxyReq'', ''proxyRes'', ''req'', ''res''] @ module_bindings @ node_globals) \<and>
   onProxyReq (tour_execution_options w) req proxyReqPath = Inl (ReferenceError ''target'') \<and>
   onProxyRes (tour_execution_options w) req statusCode = Inl (ReferenceError ''target'') \<and>
   list_all (\<lambda>opts. (\<exists>l. onProxyReq opts req proxyReqPath = Inr l) \<and>
                     (\<exists>l. onProxyRes opts req statusCode = Inr l))
     [auth_options w, stakeholders_options w, blog_options w, tour_options w,
      followers_options w, carts_options w]"
  by (simp add: option_defs onProxyReq_tour_execution_def onProxyRes_tour_execution_def
      onProxyReq_guarded_def onProxyRes_local_def
      logger_info_def try_catch_def resolve_def module_bindings_def node_globals_def)

end
